theory Spec2Isabelle
  imports Main
begin

section \<open>Exceptions, results and Python values\<close>

text \<open>
  The development embeds \<^verbatim>\<open>mlflow/utils/autologging_utils/safety.py\<close>.
  A Python call either returns a value or raises; a raise is the left injection of a sum.
  The exception classes the module tells apart are \<^verbatim>\<open>Exception\<close> (with
  \<^verbatim>\<open>AssertionError\<close> as the subclass its assertions raise) and the
  \<^verbatim>\<open>BaseException\<close>s outside it, of which \<^verbatim>\<open>KeyboardInterrupt\<close>
  is caught by name in two places.
\<close>

datatype exn =
    PyException string
  | AssertionError string
  | KeyboardInterrupt
  | SystemExit

type_synonym 'a result = "exn + 'a"

abbreviation Raise :: "exn \<Rightarrow> exn + 'a" where
  "Raise \<equiv> Inl"

abbreviation Return :: "'a \<Rightarrow> exn + 'a" where
  "Return \<equiv> Inr"

fun is_Exception :: "exn \<Rightarrow> bool" where
  "is_Exception (PyException _) = True"
| "is_Exception (AssertionError _) = True"
| "is_Exception KeyboardInterrupt = False"
| "is_Exception SystemExit = False"

text \<open>The clause \<^verbatim>\<open>except (Exception, KeyboardInterrupt)\<close>.\<close>

definition is_Exception_or_KeyboardInterrupt :: "exn \<Rightarrow> bool" where
  "is_Exception_or_KeyboardInterrupt e = (is_Exception e \<or> e = KeyboardInterrupt)"

datatype metaclass = MetaType | ExceptionSafeClass | ExceptionSafeAbstractClass

text \<open>
  Python values as far as \<^verbatim>\<open>_validate_args\<close> inspects them. A callable carries its
  identity, the identity of its type and the truth value of its
  \<^verbatim>\<open>exception_safe\<close> attribute; any other object carries its identity, the
  identity of its class and the metaclass of that class. A dictionary is the list of its
  items in insertion order.
\<close>

datatype pyval =
    VNone
  | VBool bool
  | VInt int
  | VStr string
  | VList "pyval list"
  | VTuple "pyval list"
  | VDict "(pyval \<times> pyval) list"
  | VCallable nat nat bool
  | VInstance nat nat metaclass

type_synonym kwargs = "(string \<times> pyval) list"

datatype pytype = TNone | TBool | TInt | TStr | TList | TTuple | TDict | TClass nat

fun py_type :: "pyval \<Rightarrow> pytype" where
  "py_type VNone = TNone"
| "py_type (VBool _) = TBool"
| "py_type (VInt _) = TInt"
| "py_type (VStr _) = TStr"
| "py_type (VList _) = TList"
| "py_type (VTuple _) = TTuple"
| "py_type (VDict _) = TDict"
| "py_type (VCallable _ t _) = TClass t"
| "py_type (VInstance _ c _) = TClass c"

section \<open>Validation of forwarded arguments\<close>

text \<open>
  A \<^verbatim>\<open>for\<close> loop whose body asserts: the first failing element ends the loop with
  its \<^verbatim>\<open>AssertionError\<close>.
\<close>

fun all_ok :: "('a \<Rightarrow> exn + unit) \<Rightarrow> 'a list \<Rightarrow> exn + unit" where
  "all_ok f [] = Return ()"
| "all_ok f (x # xs) = (case f x of Raise e \<Rightarrow> Raise e | Return _ \<Rightarrow> all_ok f xs)"

lemma all_ok_cong [fundef_cong]:
  "xs = ys \<Longrightarrow> (\<And>x. x \<in> set ys \<Longrightarrow> f x = g x) \<Longrightarrow> all_ok f xs = all_ok g ys"
  by (induction ys arbitrary: xs) (auto split: sum.splits)

text \<open>\<^verbatim>\<open>itertools.zip_longest\<close>: the shorter side is padded with \<^verbatim>\<open>None\<close>.\<close>

fun zip_longest :: "pyval list \<Rightarrow> pyval list \<Rightarrow> (pyval \<times> pyval) list" where
  "zip_longest [] [] = []"
| "zip_longest (x # xs) [] = (x, VNone) # zip_longest xs []"
| "zip_longest [] (y # ys) = (VNone, y) # zip_longest [] ys"
| "zip_longest (x # xs) (y # ys) = (x, y) # zip_longest xs ys"

text \<open>
  \<^verbatim>\<open>_validate_new_input\<close>: a list is checked element by element, a callable must
  carry the \<^verbatim>\<open>exception_safe\<close> attribute, and anything else must be an instance
  of a class built by one of the two exception-safe metaclasses (the class of a
  \<^verbatim>\<open>None\<close>, a number, a string, a tuple or a dictionary is built by
  \<^verbatim>\<open>type\<close>).
\<close>

fun validate_new_input :: "pyval \<Rightarrow> exn + unit" where
  "validate_new_input (VList items) = all_ok validate_new_input items"
| "validate_new_input (VCallable i t safe) =
     (if safe then Return ()
      else Raise (AssertionError ''New function argument passed to original function is not exception-safe.''))"
| "validate_new_input (VInstance i c m) =
     (if m \<in> {ExceptionSafeClass, ExceptionSafeAbstractClass} then Return ()
      else Raise (AssertionError ''Invalid new input''))"
| "validate_new_input _ = Raise (AssertionError ''Invalid new input'')"

lemma zip_longest_fst:
  "p \<in> set (zip_longest as us) \<Longrightarrow> \<not> length as < length us \<Longrightarrow> fst p \<in> set as"
  by (induction as us rule: zip_longest.induct) auto

lemma size_list_mem: "x \<in> set xs \<Longrightarrow> size x < Suc (size_list size xs)"
  by (induction xs) auto

lemma zip_longest_size:
  "(x, y) \<in> set (zip_longest as us) \<Longrightarrow> \<not> length as < length us \<Longrightarrow>
   size x < Suc (size_list size as)"
  using zip_longest_fst size_list_mem by fastforce

lemma size_dict_mem:
  "map_of d k = Some v \<Longrightarrow> size (v::pyval) < Suc (size_list (size_prod size size) d)"
  by (induction d) (auto split: if_splits)

text \<open>
  \<^verbatim>\<open>_validate(autologging_call_input, user_call_input)\<close>. The loop over a dictionary
  runs over the keys of the instrumentation's dictionary and reads both dictionaries by key,
  \<^verbatim>\<open>user_call_input.get(key, None)\<close> giving \<^verbatim>\<open>None\<close> for a key the
  user did not pass.
\<close>

function validate :: "pyval \<Rightarrow> pyval \<Rightarrow> exn + unit" where
  "validate a u =
    (if u = VNone \<and> a \<noteq> VNone then validate_new_input a
     else if py_type a \<noteq> py_type u
       then Raise (AssertionError ''Type of input to original function does not match expected type'')
     else (case (a, u) of
        (VList as, VList us) \<Rightarrow>
          if length as < length us
          then Raise (AssertionError ''expected inputs are missing from the call to the original function.'')
          else all_ok (\<lambda>p. validate (fst p) (snd p)) (zip_longest as us)
      | (VTuple as, VTuple us) \<Rightarrow>
          if length as < length us
          then Raise (AssertionError ''expected inputs are missing from the call to the original function.'')
          else all_ok (\<lambda>p. validate (fst p) (snd p)) (zip_longest as us)
      | (VDict ad, VDict ud) \<Rightarrow>
          if \<not> set (map fst ud) \<subseteq> set (map fst ad)
          then Raise (AssertionError ''Keyword or dictionary arguments to original function omit one or more expected keys'')
          else all_ok (\<lambda>key. case map_of ad key of
                           None \<Rightarrow> Raise (PyException ''KeyError'')
                         | Some v \<Rightarrow> validate v (case map_of ud key of None \<Rightarrow> VNone | Some w \<Rightarrow> w))
                 (map fst ad)
      | _ \<Rightarrow>
          if a = u then Return ()
          else Raise (AssertionError ''Input to original function does not match expected input.'')))"
  by pat_completeness auto
termination
  apply (relation "measure (\<lambda>(a, u). size a)")
  apply (auto simp: zip_longest_size size_dict_mem)
  done

declare validate.simps [simp del]

definition kwargs_dict :: "kwargs \<Rightarrow> pyval" where
  "kwargs_dict kw = VDict (map (\<lambda>(k, v). (VStr k, v)) kw)"

text \<open>
  \<^verbatim>\<open>_validate_args(user_call_args, user_call_kwargs, autologging_call_args,
  autologging_call_kwargs)\<close>: the positional arguments are a tuple, the keyword arguments a
  dictionary with string keys.
\<close>

definition validate_args :: "pyval list \<Rightarrow> kwargs \<Rightarrow> pyval list \<Rightarrow> kwargs \<Rightarrow> exn + unit" where
  "validate_args user_call_args user_call_kwargs autologging_call_args autologging_call_kwargs =
     (case validate (VTuple autologging_call_args) (VTuple user_call_args) of
        Raise e \<Rightarrow> Raise e
      | Return _ \<Rightarrow> validate (kwargs_dict autologging_call_kwargs) (kwargs_dict user_call_kwargs))"

section \<open>The process state\<close>

text \<open>
  The state of the process as far as the module reads and writes it. Runs of the tracking
  service are numbered in the order of their creation; \<^verbatim>\<open>run_store\<close> is the
  service's record of every run, \<^verbatim>\<open>active_run_stack\<close> the stack of active runs of the
  fluent interface (the head is \<^verbatim>\<open>mlflow.active_run()\<close>).
\<close>

datatype RunStatus = RUNNING | SCHEDULED | FINISHED | FAILED | KILLED

record run =
  run_id :: nat
  status :: RunStatus
  tags :: "(string \<times> string) list"

text \<open>
  \<^verbatim>\<open>AutologgingSession\<close>: integration, identifier and state, the state initially
  \<^verbatim>\<open>running\<close>. The identifier stands for \<^verbatim>\<open>uuid.uuid4().hex\<close>: the
  counter \<^verbatim>\<open>uuid_counter\<close> of the state yields a fresh one.
\<close>

datatype session_state = Running | Succeeded | Failed

record AutologgingSession =
  integration :: string
  session_id :: nat
  state :: session_state

text \<open>
  What \<^verbatim>\<open>get_autologging_config\<close> and \<^verbatim>\<open>autologging_is_disabled\<close> read
  for an integration, and the two behaviours the diagnostics scopes set: the process-wide
  one for MLflow's own events and warnings, the thread's one for all other warnings.
\<close>

record integration_config =
  disabled :: bool
  exclusive :: bool
  silent :: bool

record warnings_behavior =
  disable_warnings :: bool
  reroute_warnings :: bool

record mlflow_behavior =
  mlflow_reroute_warnings :: bool
  mlflow_disable_event_logs :: bool
  mlflow_disable_warnings :: bool

text \<open>
  The calls made to the \<^verbatim>\<open>AutologgingEventLogger\<close>, in order; each records the
  session object it was handed as it was at that moment.
\<close>

datatype event_kind =
    original_function_start
  | original_function_success
  | original_function_error
  | patch_function_start
  | patch_function_success
  | patch_function_error

record event =
  ev_kind :: event_kind
  ev_session :: "AutologgingSession option"
  ev_function :: string
  ev_args :: "pyval list"
  ev_kwargs :: kwargs
  ev_exception :: "exn option"

text \<open>
  Every invocation of an original function is recorded with its arguments and with the
  warning behaviour of the thread at that moment; the record is only ever read by the
  statements below.
\<close>

record call_record =
  called :: string
  call_args :: "pyval list"
  call_kwargs :: kwargs
  call_warnings :: warnings_behavior

text \<open>
  The field \<^verbatim>\<open>testing\<close> is the truth of
  \<^verbatim>\<open>os.environ.get("MLFLOW_AUTOLOGGING_TESTING", "false") == "true"\<close>, the field
  \<^verbatim>\<open>session\<close> is \<^verbatim>\<open>_AutologgingSessionManager._session\<close>, and
  \<^verbatim>\<open>library\<close> is the state of the instrumented library, the only part of the
  state an original function reads and writes. The field \<^verbatim>\<open>session_log\<close> records, in
  order and by the identifier of the session, every creation of a session (with the state
  \<^verbatim>\<open>running\<close>) and every assignment to the state of a session; nothing in the module
  reads it.
\<close>

record 'u world =
  testing :: bool
  autologging_globally_disabled :: bool
  autologging_config :: "string \<Rightarrow> integration_config"
  session :: "AutologgingSession option"
  session_log :: "(nat \<times> session_state) list"
  uuid_counter :: nat
  active_run_stack :: "nat list"
  run_store :: "run list"
  mlflow_events_and_warnings :: mlflow_behavior
  non_mlflow_warnings :: warnings_behavior
  event_log :: "event list"
  warning_log :: "exn list"
  original_calls :: "call_record list"
  library :: 'u

definition is_testing :: "'u world \<Rightarrow> bool" where
  "is_testing w = testing w"

text \<open>
  Modelled from the spec: the tracking client (\<^verbatim>\<open>mlflow.active_run\<close>,
  \<^verbatim>\<open>mlflow.start_run\<close>, \<^verbatim>\<open>mlflow.end_run\<close>,
  \<^verbatim>\<open>MlflowClient.get_run\<close>, \<^verbatim>\<open>RunStatus.is_terminated\<close> and the tag name
  \<^verbatim>\<open>MLFLOW_AUTOLOGGING\<close> are defined outside this module). Starting a run records it
  with status \<^verbatim>\<open>RUNNING\<close> and makes it the active run; ending a run gives the active
  run the status passed and makes the run below it active again, and does nothing when no
  run is active.
\<close>

definition active_run :: "'u world \<Rightarrow> nat option" where
  "active_run w = (case active_run_stack w of [] \<Rightarrow> None | r # _ \<Rightarrow> Some r)"

definition start_run :: "(string \<times> string) list \<Rightarrow> 'u world \<Rightarrow> nat result \<times> 'u world" where
  "start_run ts w =
     (let r = length (run_store w)
      in (Return r,
          w\<lparr>run_store := run_store w @ [\<lparr>run_id = r, status = RUNNING, tags = ts\<rparr>],
            active_run_stack := r # active_run_stack w\<rparr>))"

definition set_status :: "nat \<Rightarrow> RunStatus \<Rightarrow> run list \<Rightarrow> run list" where
  "set_status r st rs = (if r < length rs then rs[r := (rs ! r)\<lparr>status := st\<rparr>] else rs)"

definition end_run :: "RunStatus \<Rightarrow> 'u world \<Rightarrow> unit result \<times> 'u world" where
  "end_run st w =
     (case active_run_stack w of
        [] \<Rightarrow> (Return (), w)
      | r # rest \<Rightarrow>
          (Return (), w\<lparr>active_run_stack := rest, run_store := set_status r st (run_store w)\<rparr>))"

definition get_run :: "nat \<Rightarrow> 'u world \<Rightarrow> run result" where
  "get_run r w =
     (if r < length (run_store w) then Return (run_store w ! r)
      else Raise (PyException ''Run not found''))"

fun is_terminated :: "RunStatus \<Rightarrow> bool" where
  "is_terminated FINISHED = True"
| "is_terminated FAILED = True"
| "is_terminated KILLED = True"
| "is_terminated _ = False"

definition MLFLOW_AUTOLOGGING :: string where
  "MLFLOW_AUTOLOGGING = ''mlflow.autologging''"

text \<open>
  Modelled from the spec: the two diagnostics scopes of
  \<^verbatim>\<open>mlflow.utils.autologging_utils.logging_and_warnings\<close>. Each sets its behaviour
  for the extent of its block and restores the previous one on every exit.
\<close>

definition set_mlflow_events_and_warnings_behavior_globally ::
  "bool \<Rightarrow> bool \<Rightarrow> bool \<Rightarrow> ('u world \<Rightarrow> 'a \<times> 'u world) \<Rightarrow> 'u world \<Rightarrow> 'a \<times> 'u world" where
  "set_mlflow_events_and_warnings_behavior_globally reroute disable_events disable body w =
     (case body (w\<lparr>mlflow_events_and_warnings :=
                     \<lparr>mlflow_reroute_warnings = reroute, mlflow_disable_event_logs = disable_events,
                      mlflow_disable_warnings = disable\<rparr>\<rparr>) of
        (r, w') \<Rightarrow> (r, w'\<lparr>mlflow_events_and_warnings := mlflow_events_and_warnings w\<rparr>))"

definition set_non_mlflow_warnings_behavior_for_current_thread ::
  "bool \<Rightarrow> bool \<Rightarrow> ('u world \<Rightarrow> 'a \<times> 'u world) \<Rightarrow> 'u world \<Rightarrow> 'a \<times> 'u world" where
  "set_non_mlflow_warnings_behavior_for_current_thread disable reroute body w =
     (case body (w\<lparr>non_mlflow_warnings :=
                     \<lparr>disable_warnings = disable, reroute_warnings = reroute\<rparr>\<rparr>) of
        (r, w') \<Rightarrow> (r, w'\<lparr>non_mlflow_warnings := non_mlflow_warnings w\<rparr>))"

text \<open>
  \<^verbatim>\<open>try_mlflow_log\<close>: an \<^verbatim>\<open>Exception\<close> of the wrapped call is re-raised in
  test mode and turned into a warning (the call then yields \<^verbatim>\<open>None\<close>) otherwise;
  anything else the call raises passes through. \<^verbatim>\<open>log_warning\<close> stands for both
  \<^verbatim>\<open>warnings.warn\<close> and \<^verbatim>\<open>_logger.warning\<close>.
\<close>

definition log_warning :: "exn \<Rightarrow> 'u world \<Rightarrow> 'u world" where
  "log_warning e w = w\<lparr>warning_log := warning_log w @ [e]\<rparr>"

definition try_mlflow_log :: "('u world \<Rightarrow> 'a result \<times> 'u world) \<Rightarrow> 'u world \<Rightarrow> 'a option result \<times> 'u world" where
  "try_mlflow_log fn w =
     (case fn w of
        (Return v, w') \<Rightarrow> (Return (Some v), w')
      | (Raise e, w') \<Rightarrow>
          if is_Exception e
          then (if is_testing w' then (Raise e, w') else (Return None, log_warning e w'))
          else (Raise e, w'))"

section \<open>PatchFunction and managed runs\<close>

text \<open>
  The variables of one execution of \<^verbatim>\<open>safe_patch_function\<close> that the closure
  \<^verbatim>\<open>call_original\<close> assigns through \<^verbatim>\<open>nonlocal\<close>. A computation that can
  reach them runs on a pair of this record and the process state. The last field counts the
  invocations of the closure; nothing in the module reads it.
\<close>

record frame =
  original_has_been_called :: bool
  original_result :: pyval
  failed_during_original :: bool
  patch_function_run_for_testing :: "nat option"
  closure_calls :: nat

type_synonym 'u st = "frame \<times> 'u world"

type_synonym 'u callable = "pyval list \<Rightarrow> kwargs \<Rightarrow> 'u st \<Rightarrow> pyval result \<times> 'u st"

type_synonym 'u original = "pyval list \<Rightarrow> kwargs \<Rightarrow> 'u \<Rightarrow> pyval result \<times> 'u"

text \<open>
  A patch is either a function object, called with the original as first argument, or a
  subclass of \<^verbatim>\<open>PatchFunction\<close> given by the attributes of a fresh instance and its
  two methods. The methods run on the instance's attributes paired with the state;
  \<^verbatim>\<open>_on_exception\<close> is given the original as well, since the instance may have kept
  the one passed to \<^verbatim>\<open>__call__\<close>.
\<close>

type_synonym 'u patch_object =
  "'u callable \<Rightarrow> pyval list \<Rightarrow> kwargs \<Rightarrow> 'u st \<Rightarrow> pyval result \<times> 'u st"

type_synonym ('i, 'u) patch_implementation =
  "'u callable \<Rightarrow> pyval list \<Rightarrow> kwargs \<Rightarrow> 'i \<times> 'u st \<Rightarrow> pyval result \<times> 'i \<times> 'u st"

type_synonym ('i, 'u) on_exception =
  "'u callable \<Rightarrow> exn \<Rightarrow> 'i \<times> 'u st \<Rightarrow> unit result \<times> 'i \<times> 'u st"

datatype ('i, 'u) patch_function =
    PatchFunctionObject "'u patch_object"
  | PatchFunctionClass 'i "('i, 'u) patch_implementation" "('i, 'u) on_exception"

text \<open>
  \<^verbatim>\<open>try: ... finally: ...\<close>: the final block runs after the body; if it raises,
  that is the outcome, otherwise the outcome of the body stands.
\<close>

definition on_world :: "('u world \<Rightarrow> 'a \<times> 'u world) \<Rightarrow> 'u st \<Rightarrow> 'a \<times> 'u st" where
  "on_world f s = (case f (snd s) of (r, w') \<Rightarrow> (r, (fst s, w')))"

definition try_finally ::
  "('s \<Rightarrow> 'a result \<times> 's) \<Rightarrow> ('s \<Rightarrow> unit result \<times> 's) \<Rightarrow> 's \<Rightarrow> 'a result \<times> 's" where
  "try_finally body final s =
     (case body s of
        (r, s') \<Rightarrow>
          (case final s' of
             (Raise e, s'') \<Rightarrow> (Raise e, s'')
           | (Return _, s'') \<Rightarrow> (r, s'')))"

text \<open>
  \<^verbatim>\<open>PatchFunction.__call__\<close>: on an \<^verbatim>\<open>Exception\<close> or a
  \<^verbatim>\<open>KeyboardInterrupt\<close> of \<^verbatim>\<open>_patch_implementation\<close> the callback
  \<^verbatim>\<open>_on_exception\<close> runs inside a \<^verbatim>\<open>try\<close> whose \<^verbatim>\<open>finally\<close>
  block is \<^verbatim>\<open>raise e\<close>.
\<close>

definition PatchFunction_call ::
  "('i, 'u) patch_implementation \<Rightarrow> ('i, 'u) on_exception \<Rightarrow> 'i \<Rightarrow> 'u patch_object" where
  "PatchFunction_call patch_implementation on_exception self original args kwargs s =
     (case patch_implementation original args kwargs (self, s) of
        (Return v, self', s') \<Rightarrow> (Return v, s')
      | (Raise e, self', s') \<Rightarrow>
          if is_Exception_or_KeyboardInterrupt e
          then (case try_finally (on_exception original e) (\<lambda>x. (Raise e, x)) (self', s') of
                  (Raise e', self'', s'') \<Rightarrow> (Raise e', s'')
                | (Return _, self'', s'') \<Rightarrow> (Return VNone, s''))
          else (Raise e, s'))"

text \<open>
  \<^verbatim>\<open>with_managed_run\<close>: the wrapper of a function object
  (\<^verbatim>\<open>patch_with_managed_run\<close>) and the two overriding methods of the class
  \<^verbatim>\<open>PatchWithManagedRun\<close>, whose instance carries the attribute
  \<^verbatim>\<open>managed_run\<close> in front of the attributes of the class it extends. The
  informational log line of \<^verbatim>\<open>create_managed_run\<close> is left out.
\<close>

definition create_managed_run :: "(string \<times> string) list \<Rightarrow> 'u world \<Rightarrow> nat result \<times> 'u world" where
  "create_managed_run ts w = start_run ts w"

definition patch_with_managed_run ::
  "(string \<times> string) list \<Rightarrow> 'u patch_object \<Rightarrow> 'u patch_object" where
  "patch_with_managed_run ts patch_function original args kwargs s =
     (case (if active_run (snd s) = None
            then on_world (try_mlflow_log (create_managed_run ts)) s
            else (Return None, s)) of
        (Raise e, s1) \<Rightarrow> (Raise e, s1)
      | (Return managed_run, s1) \<Rightarrow>
          (case patch_function original args kwargs s1 of
             (Raise e, s2) \<Rightarrow>
               if is_Exception_or_KeyboardInterrupt e
               then (case (if managed_run \<noteq> None
                           then on_world (try_mlflow_log (end_run FAILED)) s2
                           else (Return None, s2)) of
                       (Raise e', s3) \<Rightarrow> (Raise e', s3)
                     | (Return _, s3) \<Rightarrow> (Raise e, s3))
               else (Raise e, s2)
           | (Return r, s2) \<Rightarrow>
               (case (if managed_run \<noteq> None
                      then on_world (try_mlflow_log (end_run FINISHED)) s2
                      else (Return None, s2)) of
                  (Raise e', s3) \<Rightarrow> (Raise e', s3)
                | (Return _, s3) \<Rightarrow> (Return r, s3))))"

definition PatchWithManagedRun_patch_implementation ::
  "(string \<times> string) list \<Rightarrow> ('i, 'u) patch_implementation \<Rightarrow>
   (nat option \<times> 'i, 'u) patch_implementation" where
  "PatchWithManagedRun_patch_implementation ts super_patch_implementation original args kwargs x =
     (case x of
        ((managed_run, self), s) \<Rightarrow>
          (case (if active_run (snd s) = None
                 then on_world (try_mlflow_log (create_managed_run ts)) s
                 else (Return managed_run, s)) of
             (Raise e, s1) \<Rightarrow> (Raise e, (managed_run, self), s1)
           | (Return m, s1) \<Rightarrow>
               (case super_patch_implementation original args kwargs (self, s1) of
                  (Raise e, self2, s2) \<Rightarrow> (Raise e, (m, self2), s2)
                | (Return r, self2, s2) \<Rightarrow>
                    (case (if m \<noteq> None
                           then on_world (try_mlflow_log (end_run FINISHED)) s2
                           else (Return None, s2)) of
                       (Raise e', s3) \<Rightarrow> (Raise e', (m, self2), s3)
                     | (Return _, s3) \<Rightarrow> (Return r, (m, self2), s3)))))"

definition PatchWithManagedRun_on_exception ::
  "('i, 'u) on_exception \<Rightarrow> (nat option \<times> 'i, 'u) on_exception" where
  "PatchWithManagedRun_on_exception super_on_exception original e x =
     (case x of
        ((managed_run, self), s) \<Rightarrow>
          (case (if managed_run \<noteq> None
                 then on_world (try_mlflow_log (end_run FAILED)) s
                 else (Return None, s)) of
             (Raise e', s1) \<Rightarrow> (Raise e', (managed_run, self), s1)
           | (Return _, s1) \<Rightarrow>
               (case super_on_exception original e (self, s1) of
                  (r, self2, s2) \<Rightarrow> (r, (managed_run, self2), s2))))"

definition with_managed_run ::
  "string \<Rightarrow> ('i, 'u) patch_function \<Rightarrow> (string \<times> string) list \<Rightarrow>
   (nat option \<times> 'i, 'u) patch_function" where
  "with_managed_run autologging_integration patch_function ts =
     (case patch_function of
        PatchFunctionClass init patch_implementation on_exception \<Rightarrow>
          PatchFunctionClass (None, init)
            (PatchWithManagedRun_patch_implementation ts patch_implementation)
            (PatchWithManagedRun_on_exception on_exception)
      | PatchFunctionObject f \<Rightarrow> PatchFunctionObject (patch_with_managed_run ts f))"

section \<open>The session manager\<close>

text \<open>
  \<^verbatim>\<open>_AutologgingSessionManager\<close>. \<^verbatim>\<open>start_session\<close> is a context manager:
  it creates a session only when none is active, runs the block, and ends the session on
  every exit only if it created it. Throughout the block the variable bound by
  \<^verbatim>\<open>as session\<close> and \<^verbatim>\<open>_AutologgingSessionManager._session\<close> are the same
  object, so the assignment \<^verbatim>\<open>session.state = ...\<close> is an update of the latter.
\<close>

definition active_session :: "'u world \<Rightarrow> AutologgingSession option" where
  "active_session w = session w"

definition end_session :: "'u world \<Rightarrow> 'u world" where
  "end_session w = w\<lparr>session := None\<rparr>"

definition start_session ::
  "string \<Rightarrow> ('u world \<Rightarrow> 'a \<times> 'u world) \<Rightarrow> 'u world \<Rightarrow> 'a \<times> 'u world" where
  "start_session integ body w =
     (let prev_session = session w;
          w1 = (if prev_session = None
                then w\<lparr>session := Some \<lparr>integration = integ, session_id = uuid_counter w,
                                         state = Running\<rparr>,
                       session_log := session_log w @ [(uuid_counter w, Running)],
                       uuid_counter := Suc (uuid_counter w)\<rparr>
                else w)
      in case body w1 of
           (r, w2) \<Rightarrow> (r, if prev_session = None then end_session w2 else w2))"

definition set_session_state :: "session_state \<Rightarrow> 'u world \<Rightarrow> 'u world" where
  "set_session_state x w =
     w\<lparr>session := map_option (\<lambda>s. s\<lparr>state := x\<rparr>) (session w),
       session_log := session_log w @
         (case session w of None \<Rightarrow> [] | Some s \<Rightarrow> [(session_id s, x)])\<rparr>"

section \<open>The guarded function\<close>

text \<open>
  Modelled from the spec: the event logger is a sink that records the notification and
  never raises (\<^verbatim>\<open>try_log_autologging_event\<close> would swallow its
  \<^verbatim>\<open>Exception\<close>s anyway).
\<close>

definition try_log_autologging_event ::
  "event_kind \<Rightarrow> string \<Rightarrow> pyval list \<Rightarrow> kwargs \<Rightarrow> exn option \<Rightarrow> 'u world \<Rightarrow> 'u world" where
  "try_log_autologging_event k function_name a kw x w =
     w\<lparr>event_log := event_log w @
         [\<lparr>ev_kind = k, ev_session = session w, ev_function = function_name, ev_args = a,
           ev_kwargs = kw, ev_exception = x\<rparr>]\<rparr>"

text \<open>
  A call of the original function itself, by the closure or by the guarded function.
\<close>

definition call_function ::
  "string \<Rightarrow> 'u original \<Rightarrow> pyval list \<Rightarrow> kwargs \<Rightarrow> 'u world \<Rightarrow> pyval result \<times> 'u world" where
  "call_function function_name original a kw w =
     (case original a kw (library w) of
        (r, u') \<Rightarrow>
          (r, w\<lparr>library := u',
                original_calls := original_calls w @
                  [\<lparr>called = function_name, call_args = a, call_kwargs = kw,
                    call_warnings = non_mlflow_warnings w\<rparr>]\<rparr>))"

text \<open>
  The closure \<^verbatim>\<open>call_original\<close> and its \<^verbatim>\<open>except Exception\<close> clause, which
  also covers the assertion of \<^verbatim>\<open>_validate_args\<close> in test mode.
\<close>

definition call_original_except ::
  "string \<Rightarrow> pyval list \<Rightarrow> kwargs \<Rightarrow> exn \<Rightarrow> 'u st \<Rightarrow> pyval result \<times> 'u st" where
  "call_original_except function_name og_args og_kwargs e s =
     (Raise e,
      ((fst s)\<lparr>failed_during_original := True\<rparr>,
       try_log_autologging_event original_function_error function_name og_args og_kwargs (Some e)
         (snd s)))"

definition call_original ::
  "string \<Rightarrow> 'u original \<Rightarrow> pyval list \<Rightarrow> kwargs \<Rightarrow> 'u callable" where
  "call_original function_name original args kwargs og_args og_kwargs s =
     (let fr = (fst s)\<lparr>closure_calls := Suc (closure_calls (fst s))\<rparr>;
          w1 = try_log_autologging_event original_function_start function_name og_args og_kwargs
                 None (snd s)
      in case (if is_testing w1 then validate_args args kwargs og_args og_kwargs else Return ()) of
           Raise e \<Rightarrow>
             if is_Exception e
             then call_original_except function_name og_args og_kwargs e (fr, w1)
             else (Raise e, (fr, w1))
         | Return _ \<Rightarrow>
             (let fr1 = (if is_testing w1
                         then fr\<lparr>patch_function_run_for_testing := active_run w1\<rparr>
                         else fr);
                  fr2 = fr1\<lparr>original_has_been_called := True\<rparr>
              in case set_non_mlflow_warnings_behavior_for_current_thread False False
                        (call_function function_name original og_args og_kwargs) w1 of
                   (Raise e, w2) \<Rightarrow>
                     if is_Exception e
                     then call_original_except function_name og_args og_kwargs e (fr2, w2)
                     else (Raise e, (fr2, w2))
                 | (Return v, w2) \<Rightarrow>
                     (Return v,
                      (fr2\<lparr>original_result := v\<rparr>,
                       try_log_autologging_event original_function_success function_name
                         og_args og_kwargs None w2))))"

text \<open>
  \<^verbatim>\<open>_validate_autologging_run\<close> and the end of \<^verbatim>\<open>safe_patch_function\<close>:
  the checks of test mode, then the result of the original if the closure was called, and a
  direct call of the original otherwise.
\<close>

definition validate_autologging_run :: "string \<Rightarrow> nat \<Rightarrow> 'u world \<Rightarrow> exn + unit" where
  "validate_autologging_run autologging_integration r w =
     (case get_run r w of
        Raise e \<Rightarrow> Raise e
      | Return info \<Rightarrow>
          if map_of (tags info) MLFLOW_AUTOLOGGING \<noteq> Some autologging_integration
          then Raise (AssertionError ''Autologging run failed to set autologging tag with expected value.'')
          else if \<not> is_terminated (status info)
          then Raise (AssertionError ''Autologging run has a non-terminal status'')
          else Return ())"

definition safe_patch_return ::
  "string \<Rightarrow> string \<Rightarrow> 'u original \<Rightarrow> nat option \<Rightarrow> pyval list \<Rightarrow> kwargs \<Rightarrow> 'u st \<Rightarrow>
   pyval result \<times> 'u world" where
  "safe_patch_return autologging_integration function_name original preexisting_run_for_testing
     args kwargs s =
     (let fr = fst s; w = snd s
      in case (if is_testing w \<and> preexisting_run_for_testing = None
               then (if active_run w \<noteq> None
                     then Raise (AssertionError ''Autologging integration leaked an active run'')
                     else (case patch_function_run_for_testing fr of
                             None \<Rightarrow> Return ()
                           | Some r \<Rightarrow> validate_autologging_run autologging_integration r w))
               else Return ()) of
           Raise e \<Rightarrow> (Raise e, w)
         | Return _ \<Rightarrow>
             if original_has_been_called fr then (Return (original_result fr), w)
             else call_function function_name original args kwargs w)"

text \<open>
  The branch on \<^verbatim>\<open>patch_is_class\<close>: \<^verbatim>\<open>patch_function.call(call_original, ...)\<close>
  builds an instance and calls it, a function object is called directly.
\<close>

definition apply_patch_function :: "('i, 'u) patch_function \<Rightarrow> 'u patch_object" where
  "apply_patch_function patch_function original args kwargs s =
     (case patch_function of
        PatchFunctionClass init patch_implementation on_exception \<Rightarrow>
          PatchFunction_call patch_implementation on_exception init original args kwargs s
      | PatchFunctionObject f \<Rightarrow> f original args kwargs s)"

text \<open>
  The block under \<^verbatim>\<open>with _AutologgingSessionManager.start_session(...)\<close> up to the
  end of its \<^verbatim>\<open>try\<close> statement, followed by \<^verbatim>\<open>safe_patch_return\<close>. The
  handler catches \<^verbatim>\<open>Exception\<close> only.
\<close>

definition new_frame :: frame where
  "new_frame = \<lparr>original_has_been_called = False, original_result = VNone,
                failed_during_original = False, patch_function_run_for_testing = None,
                closure_calls = 0\<rparr>"

definition safe_patch_session_body ::
  "string \<Rightarrow> string \<Rightarrow> 'u patch_object \<Rightarrow> 'u original \<Rightarrow> nat option \<Rightarrow> pyval list \<Rightarrow> kwargs \<Rightarrow>
   'u world \<Rightarrow> pyval result \<times> 'u world" where
  "safe_patch_session_body autologging_integration function_name call_patch original
     preexisting_run_for_testing args kwargs w =
     (case call_patch (call_original function_name original args kwargs) args kwargs
             (new_frame,
              try_log_autologging_event patch_function_start function_name args kwargs None w) of
        (Return _, fr, w2) \<Rightarrow>
          safe_patch_return autologging_integration function_name original
            preexisting_run_for_testing args kwargs
            (fr, try_log_autologging_event patch_function_success function_name args kwargs None
                   (set_session_state Succeeded w2))
      | (Raise e, fr, w2) \<Rightarrow>
          if is_Exception e
          then (let w3 = set_session_state Failed w2
                in if failed_during_original fr \<or> is_testing w3 then (Raise e, w3)
                   else safe_patch_return autologging_integration function_name original
                          preexisting_run_for_testing args kwargs
                          (fr, log_warning e
                                 (try_log_autologging_event patch_function_error function_name
                                    args kwargs (Some e) w3)))
          else (Raise e, w2))"

text \<open>
  Modelled from the spec: the configuration store
  (\<^verbatim>\<open>get_autologging_config\<close>, \<^verbatim>\<open>autologging_is_disabled\<close> and
  \<^verbatim>\<open>_AUTOLOGGING_GLOBALLY_DISABLED\<close> are defined outside this module).
  \<^verbatim>\<open>skip_instrumentation\<close> is the condition under which the guarded function calls
  the original and returns.
\<close>

definition get_autologging_config :: "'u world \<Rightarrow> string \<Rightarrow> integration_config" where
  "get_autologging_config w autologging_integration = autologging_config w autologging_integration"

definition autologging_is_disabled :: "'u world \<Rightarrow> string \<Rightarrow> bool" where
  "autologging_is_disabled w autologging_integration =
     disabled (autologging_config w autologging_integration)"

definition skip_instrumentation :: "'u world \<Rightarrow> string \<Rightarrow> bool" where
  "skip_instrumentation w autologging_integration =
     (let exclusive_mode = exclusive (get_autologging_config w autologging_integration);
          user_created_fluent_run_is_active = (active_run w \<noteq> None \<and> active_session w = None);
          active_session_failed =
            (case active_session w of None \<Rightarrow> False | Some s \<Rightarrow> state s = Failed)
      in active_session_failed
         \<or> autologging_is_disabled w autologging_integration
         \<or> (user_created_fluent_run_is_active \<and> exclusive_mode)
         \<or> autologging_globally_disabled w)"

text \<open>
  \<^verbatim>\<open>safe_patch_function\<close>, for the original that
  \<^verbatim>\<open>gorilla.get_original_attribute\<close> returns, and \<^verbatim>\<open>safe_patch\<close>, which
  wraps the patch with \<^verbatim>\<open>with_managed_run\<close> first when \<^verbatim>\<open>manage_run\<close> is
  set.
\<close>

definition safe_patch_function ::
  "string \<Rightarrow> string \<Rightarrow> ('i, 'u) patch_function \<Rightarrow> 'u original \<Rightarrow> pyval list \<Rightarrow> kwargs \<Rightarrow>
   'u world \<Rightarrow> pyval result \<times> 'u world" where
  "safe_patch_function autologging_integration function_name patch_function original args kwargs w =
     (let is_silent_mode = silent (get_autologging_config w autologging_integration)
      in set_mlflow_events_and_warnings_behavior_globally True is_silent_mode is_silent_mode
           (set_non_mlflow_warnings_behavior_for_current_thread is_silent_mode True
              (\<lambda>w0.
                 let preexisting_run_for_testing = active_run w0
                 in if skip_instrumentation w0 autologging_integration
                    then set_non_mlflow_warnings_behavior_for_current_thread False False
                           (call_function function_name original args kwargs) w0
                    else start_session autologging_integration
                           (safe_patch_session_body autologging_integration function_name
                              (apply_patch_function patch_function) original
                              preexisting_run_for_testing args kwargs)
                           w0))
           w)"

definition safe_patch ::
  "string \<Rightarrow> string \<Rightarrow> ('i, 'u) patch_function \<Rightarrow> bool \<Rightarrow> 'u original \<Rightarrow> pyval list \<Rightarrow> kwargs \<Rightarrow>
   'u world \<Rightarrow> pyval result \<times> 'u world" where
  "safe_patch autologging_integration function_name patch_function manage_run original =
     (if manage_run
      then safe_patch_function autologging_integration function_name
             (with_managed_run autologging_integration patch_function
                [(MLFLOW_AUTOLOGGING, autologging_integration)])
             original
      else safe_patch_function autologging_integration function_name patch_function original)"

section \<open>Patch implementations as programs\<close>

text \<open>
  A patch implementation is code the module does not know. Its behaviours are described by
  a tree of the actions it can take: return, raise, call the original it was given (and go
  on according to what that call returned or raised, so that it may catch an exception),
  ask for the active run, start or end a run, and call another guarded function. A guarded
  function is given by the arguments of \<^verbatim>\<open>safe_patch\<close> and its original; a patch is
  a function or a class with its two methods.
\<close>

datatype 'u prog =
    Ret pyval
  | Throw exn
  | CallOriginal "pyval list" kwargs "pyval result \<Rightarrow> 'u prog"
  | ActiveRun "nat option \<Rightarrow> 'u prog"
  | StartRun "(string \<times> string) list" "'u prog"
  | EndRun RunStatus "'u prog"
  | CallGuarded "'u guarded" "pyval list" kwargs "pyval result \<Rightarrow> 'u prog"
and 'u guarded =
    Guarded string string "'u patch" bool "'u original"
and 'u patch =
    FunctionPatch "pyval list \<Rightarrow> kwargs \<Rightarrow> 'u prog"
  | ClassPatch "pyval list \<Rightarrow> kwargs \<Rightarrow> 'u prog" "exn \<Rightarrow> 'u prog"

primrec exec :: "'u prog \<Rightarrow> 'u callable \<Rightarrow> 'u st \<Rightarrow> pyval result \<times> 'u st"
  and guarded_call :: "'u guarded \<Rightarrow> pyval list \<Rightarrow> kwargs \<Rightarrow> 'u world \<Rightarrow> pyval result \<times> 'u world"
  and patch_function_of :: "'u patch \<Rightarrow> (unit, 'u) patch_function"
where
  "exec (Ret v) original s = (Return v, s)"
| "exec (Throw e) original s = (Raise e, s)"
| "exec (CallOriginal a kw k) original s =
     (case original a kw s of (r, s') \<Rightarrow> exec (k r) original s')"
| "exec (ActiveRun k) original s = exec (k (active_run (snd s))) original s"
| "exec (StartRun ts p) original s = exec p original (fst s, snd (start_run ts (snd s)))"
| "exec (EndRun st p) original s = exec p original (fst s, snd (end_run st (snd s)))"
| "exec (CallGuarded g a kw k) original s =
     (case guarded_call g a kw (snd s) of (r, w') \<Rightarrow> exec (k r) original (fst s, w'))"
| "guarded_call (Guarded autologging_integration function_name p manage_run orig) =
     safe_patch autologging_integration function_name (patch_function_of p) manage_run orig"
| "patch_function_of (FunctionPatch f) = PatchFunctionObject (\<lambda>original a kw. exec (f a kw) original)"
| "patch_function_of (ClassPatch f h) =
     PatchFunctionClass ()
       (\<lambda>original a kw x. case exec (f a kw) original (snd x) of (r, s') \<Rightarrow> (r, fst x, s'))
       (\<lambda>original e x. case exec (h e) original (snd x) of (r, s') \<Rightarrow> (map_sum id (\<lambda>_. ()) r, fst x, s'))"

text \<open>
  The patch as \<^verbatim>\<open>safe_patch_function\<close> calls it.
\<close>

definition installed_patch :: "string \<Rightarrow> 'u patch \<Rightarrow> bool \<Rightarrow> 'u patch_object" where
  "installed_patch autologging_integration p manage_run =
     (if manage_run
      then apply_patch_function
             (with_managed_run autologging_integration (patch_function_of p)
                [(MLFLOW_AUTOLOGGING, autologging_integration)])
      else apply_patch_function (patch_function_of p))"

section \<open>Entering and leaving the scopes of a guarded call\<close>

text \<open>
  The state in which the guarded function, when it does not skip the instrumentation,
  hands control to the patch (\<^verbatim>\<open>patch_entry\<close>), and the state it leaves behind once
  the session scope and the diagnostics scopes are left.
\<close>

definition enter_scopes :: "string \<Rightarrow> 'u world \<Rightarrow> 'u world" where
  "enter_scopes autologging_integration w =
     (let is_silent_mode = silent (get_autologging_config w autologging_integration);
          w0 = w\<lparr>mlflow_events_and_warnings :=
                    \<lparr>mlflow_reroute_warnings = True, mlflow_disable_event_logs = is_silent_mode,
                     mlflow_disable_warnings = is_silent_mode\<rparr>,
                 non_mlflow_warnings :=
                    \<lparr>disable_warnings = is_silent_mode, reroute_warnings = True\<rparr>\<rparr>
      in if session w = None
         then w0\<lparr>session := Some \<lparr>integration = autologging_integration,
                                   session_id = uuid_counter w, state = Running\<rparr>,
                  session_log := session_log w @ [(uuid_counter w, Running)],
                  uuid_counter := Suc (uuid_counter w)\<rparr>
         else w0)"

definition leave_scopes :: "'u world \<Rightarrow> 'u world \<Rightarrow> 'u world" where
  "leave_scopes w w' =
     (if session w = None then end_session w' else w')
       \<lparr>non_mlflow_warnings := non_mlflow_warnings w,
        mlflow_events_and_warnings := mlflow_events_and_warnings w\<rparr>"

definition patch_entry :: "string \<Rightarrow> string \<Rightarrow> pyval list \<Rightarrow> kwargs \<Rightarrow> 'u world \<Rightarrow> 'u st" where
  "patch_entry autologging_integration function_name args kwargs w =
     (new_frame,
      try_log_autologging_event patch_function_start function_name args kwargs None
        (enter_scopes autologging_integration w))"



definition body_entry ::
  "string \<Rightarrow> string \<Rightarrow> bool \<Rightarrow> pyval list \<Rightarrow> kwargs \<Rightarrow> 'u world \<Rightarrow> 'u st" where
  "body_entry autologging_integration function_name manage_run args kwargs w =
     (let s = patch_entry autologging_integration function_name args kwargs w
      in if manage_run \<and> active_run w = None
         then (fst s,
               snd (create_managed_run [(MLFLOW_AUTOLOGGING, autologging_integration)] (snd s)))
         else s)"



section \<open>The registry of patches\<close>

text \<open>
  Modelled from the spec: the patch registry of \<^verbatim>\<open>mlflow.utils.gorilla\<close>. A patch
  names its destination, the attribute and the replacement; applying it installs the
  replacement, reverting it restores the original. \<^verbatim>\<open>_AUTOLOGGING_PATCHES\<close> maps an
  integration to its set of patches, kept as a list without repetitions.
\<close>

datatype gorilla_patch = Patch string string nat

record patch_registry =
  applied_patches :: "gorilla_patch list"
  AUTOLOGGING_PATCHES :: "string \<rightharpoonup> gorilla_patch list"

definition gorilla_apply :: "gorilla_patch \<Rightarrow> patch_registry \<Rightarrow> patch_registry" where
  "gorilla_apply p st = st\<lparr>applied_patches := List.insert p (applied_patches st)\<rparr>"

definition gorilla_revert :: "gorilla_patch \<Rightarrow> patch_registry \<Rightarrow> patch_registry" where
  "gorilla_revert p st = st\<lparr>applied_patches := removeAll p (applied_patches st)\<rparr>"

text \<open>
  \<^verbatim>\<open>_store_patch\<close>, \<^verbatim>\<open>_wrap_patch\<close>, the last two lines of
  \<^verbatim>\<open>safe_patch\<close> and \<^verbatim>\<open>revert_patches\<close>.
\<close>

definition store_patch :: "string \<Rightarrow> gorilla_patch \<Rightarrow> patch_registry \<Rightarrow> patch_registry" where
  "store_patch autologging_integration p st =
     (case AUTOLOGGING_PATCHES st autologging_integration of
        Some ps \<Rightarrow>
          st\<lparr>AUTOLOGGING_PATCHES :=
               (AUTOLOGGING_PATCHES st)(autologging_integration \<mapsto> List.insert p ps)\<rparr>
      | None \<Rightarrow>
          st\<lparr>AUTOLOGGING_PATCHES := (AUTOLOGGING_PATCHES st)(autologging_integration \<mapsto> [p])\<rparr>)"

definition wrap_patch :: "string \<Rightarrow> string \<Rightarrow> nat \<Rightarrow> patch_registry \<Rightarrow> gorilla_patch \<times> patch_registry" where
  "wrap_patch destination name wrapped st =
     (Patch destination name wrapped, gorilla_apply (Patch destination name wrapped) st)"

definition install_patch ::
  "string \<Rightarrow> string \<Rightarrow> string \<Rightarrow> nat \<Rightarrow> patch_registry \<Rightarrow> patch_registry" where
  "install_patch autologging_integration destination function_name safe_patch_function_id st =
     (case wrap_patch destination function_name safe_patch_function_id st of
        (new_patch, st') \<Rightarrow> store_patch autologging_integration new_patch st')"

definition revert_patches :: "string \<Rightarrow> patch_registry \<Rightarrow> patch_registry" where
  "revert_patches autologging_integration st =
     (let st' = fold gorilla_revert
                  (case AUTOLOGGING_PATCHES st autologging_integration of
                     None \<Rightarrow> []
                   | Some ps \<Rightarrow> ps)
                  st
      in st'\<lparr>AUTOLOGGING_PATCHES := (AUTOLOGGING_PATCHES st')(autologging_integration := None)\<rparr>)"

definition empty_registry :: patch_registry where
  "empty_registry = \<lparr>applied_patches = [], AUTOLOGGING_PATCHES = Map.empty\<rparr>"

section \<open>Scenarios\<close>

text \<open>
  A state in which nothing has happened yet, and the patch implementations and originals
  of the examples.
\<close>

definition default_config :: integration_config where
  "default_config = \<lparr>disabled = False, exclusive = False, silent = False\<rparr>"

definition initial_world :: "bool \<Rightarrow> 'u \<Rightarrow> 'u world" where
  "initial_world t u =
     \<lparr>testing = t, autologging_globally_disabled = False,
      autologging_config = (\<lambda>_. default_config), session = None, session_log = [],
      uuid_counter = 0,
      active_run_stack = [], run_store = [],
      mlflow_events_and_warnings =
        \<lparr>mlflow_reroute_warnings = False, mlflow_disable_event_logs = False,
         mlflow_disable_warnings = False\<rparr>,
      non_mlflow_warnings = \<lparr>disable_warnings = False, reroute_warnings = False\<rparr>,
      event_log = [], warning_log = [], original_calls = [], library = u\<rparr>"

definition scenario_A_original :: "unit original" where
  "scenario_A_original a kw u =
     (case a of
        [VInt x] \<Rightarrow> (Return (VInt (x * 2)), u)
      | _ \<Rightarrow> (Raise (PyException ''TypeError''), u))"

definition scenario_A_patch :: "unit patch" where
  "scenario_A_patch =
     FunctionPatch (\<lambda>a kw. CallOriginal a kw
       (\<lambda>r. case r of
               Return (VInt n) \<Rightarrow> Ret (VInt (n + 1))
             | Return _ \<Rightarrow> Throw (PyException ''TypeError'')
             | Raise e \<Rightarrow> Throw e))"

definition always_raises :: "unit original" where
  "always_raises a kw u = (Raise (PyException ''ValueError: bad input''), u)"

definition forwarding :: "pyval list \<Rightarrow> kwargs \<Rightarrow> unit prog" where
  "forwarding a kw = CallOriginal a kw (\<lambda>r. case r of Raise e \<Rightarrow> Throw e | Return v \<Rightarrow> Ret v)"

definition forwarding_patch :: "unit patch" where
  "forwarding_patch = FunctionPatch forwarding"

definition swallowing_patch :: "unit patch" where
  "swallowing_patch = FunctionPatch (\<lambda>a kw. CallOriginal a kw (\<lambda>r. Ret VNone))"

definition failing_patch :: "unit patch" where
  "failing_patch = FunctionPatch (\<lambda>a kw. Throw (PyException ''instrumentation bug''))"

definition interrupted_patch :: "unit patch" where
  "interrupted_patch = FunctionPatch (\<lambda>a kw. Throw KeyboardInterrupt)"

definition nesting_patch :: "unit patch" where
  "nesting_patch = FunctionPatch (\<lambda>a kw.
     CallGuarded (Guarded ''sklearn'' ''inner'' failing_patch False scenario_A_original) a kw
       (\<lambda>r. forwarding a kw))"

definition run_ending_patch :: "unit patch" where
  "run_ending_patch = FunctionPatch (\<lambda>a kw. EndRun KILLED (forwarding a kw))"

definition run_leaking_patch :: "unit patch" where
  "run_leaking_patch = FunctionPatch (\<lambda>a kw. StartRun [] (forwarding a kw))"

definition forwarding_class_patch :: "unit patch" where
  "forwarding_class_patch = ClassPatch forwarding (\<lambda>e. Ret VNone)"

definition failing_class_patch :: "unit patch" where
  "failing_class_patch =
     ClassPatch (\<lambda>a kw. Throw (PyException ''instrumentation bug'')) (\<lambda>e. EndRun FAILED (Ret VNone))"

definition idle_patch :: "unit patch" where
  "idle_patch = FunctionPatch (\<lambda>a kw. Ret VNone)"

definition same_raising_patch :: "unit patch" where
  "same_raising_patch = FunctionPatch (\<lambda>a kw. Throw (PyException ''ValueError: bad input''))"

section \<open>Auxiliary notions\<close>

text \<open>
  The state after the single active run \<^verbatim>\<open>r\<close> has been ended with a status, the
  property of a computation to leave the mode switch as it found it, the relation
  between two states that the closure has been invoked in between or the call-local record
  is the same, and the relation between two states that the log of the sessions has only
  grown and that, if a session was active, it still is, whatever its state, no session has
  been created and the log has grown by assignments of succeeded or failed to that session
  only.
\<close>

definition ended :: "nat \<Rightarrow> RunStatus \<Rightarrow> 'u world \<Rightarrow> 'u world" where
  "ended r st w = w\<lparr>active_run_stack := [], run_store := set_status r st (run_store w)\<rparr>"

definition keeps_testing :: "('u st \<Rightarrow> 'a \<times> 'u st) \<Rightarrow> bool" where
  "keeps_testing g = (\<forall>s. testing (snd (snd (g s))) = testing (snd s))"

definition frame_kept :: "'u st \<Rightarrow> 'u st \<Rightarrow> bool" where
  "frame_kept s s' =
     (closure_calls (fst s) \<le> closure_calls (fst s')
      \<and> (closure_calls (fst s') = closure_calls (fst s) \<longrightarrow> fst s' = fst s))"

definition session_kept :: "'u world \<Rightarrow> 'u world \<Rightarrow> bool" where
  "session_kept w w' =
     ((\<exists>tr. session_log w' = session_log w @ tr
            \<and> (\<forall>s. session w = Some s \<longrightarrow>
                   (\<forall>e\<in>set tr. fst e = session_id s \<and> snd e \<noteq> Running)))
      \<and> (\<forall>s. session w = Some s \<longrightarrow>
             (\<exists>s'. session w' = Some s' \<and> session_id s' = session_id s
                    \<and> integration s' = integration s)
             \<and> uuid_counter w' = uuid_counter w))"

definition keeps_session :: "('u st \<Rightarrow> 'a \<times> 'u st) \<Rightarrow> bool" where
  "keeps_session g = (\<forall>s. session_kept (snd s) (snd (snd (g s))))"

section \<open>Properties of the validator\<close>

lemma all_ok_Return: "(\<And>x. x \<in> set xs \<Longrightarrow> f x = Return ()) \<Longrightarrow> all_ok f xs = Return ()"
  by (induction xs) auto

lemma zip_longest_same:
  "p \<in> set (zip_longest xs xs) \<Longrightarrow> fst p \<in> set xs \<and> snd p = fst p"
  by (induction xs) auto

lemma validate_same: "validate v v = Return ()"
proof (induction v)
  case (VList xs)
  then show ?case
    by (subst validate.simps) (auto intro!: all_ok_Return dest!: zip_longest_same)
next
  case (VTuple xs)
  then show ?case
    by (subst validate.simps) (auto intro!: all_ok_Return dest!: zip_longest_same)
next
  case (VDict d)
  have "all_ok (\<lambda>key. case map_of d key of
                    None \<Rightarrow> Raise (PyException ''KeyError'')
                  | Some v \<Rightarrow> validate v (case map_of d key of None \<Rightarrow> VNone | Some w \<Rightarrow> w))
          (map fst d) = Return ()"
  proof (rule all_ok_Return)
    fix key
    assume "key \<in> set (map fst d)"
    then obtain v where v: "map_of d key = Some v"
      by (metis map_of_eq_None_iff not_Some_eq set_map)
    then have "(key, v) \<in> set d"
      by (rule map_of_SomeD)
    then have "validate v v = Return ()"
      using VDict.IH by force
    then show "(case map_of d key of
                  None \<Rightarrow> Raise (PyException ''KeyError'')
                | Some v \<Rightarrow> validate v (case map_of d key of None \<Rightarrow> VNone | Some w \<Rightarrow> w))
               = Return ()"
      using v by simp
  qed
  then show ?case
    by (subst validate.simps) simp
qed (simp_all add: validate.simps)

text \<open>
  C9. For every tuple of positional arguments and every mapping of keyword arguments,
  validating the forwarding of exactly the user's arguments (the same positional arguments,
  the same keyword arguments, nothing added) succeeds: no assertion fails.
\<close>

theorem validate_args_identical_succeeds:
  "validate_args args kwargs args kwargs = Return ()"
  by (simp add: validate_args_def validate_same)

theorem validate_args_identical_succeeds_witness:
  "validate_args [VInt 5, VList [VNone, VStr ''x'']] [(''callbacks'', VNone)]
     [VInt 5, VList [VNone, VStr ''x'']] [(''callbacks'', VNone)] = Return ()"
  by (rule validate_args_identical_succeeds)

section \<open>Frame conditions\<close>

lemma frame_kept_refl: "frame_kept s s"
  by (simp add: frame_kept_def)

lemma frame_kept_trans: "frame_kept s s' \<Longrightarrow> frame_kept s' s'' \<Longrightarrow> frame_kept s s''"
  by (auto simp: frame_kept_def)

lemma frame_kept_same_frame: "fst s' = fst s \<Longrightarrow> frame_kept s s'"
  by (simp add: frame_kept_def)

lemma call_original_frame_kept: "frame_kept s (snd (call_original f orig a k oa ok s))"
proof -
  let ?w1 = "try_log_autologging_event original_function_start f oa ok None (snd s)"
  let ?c = "set_non_mlflow_warnings_behavior_for_current_thread False False
              (call_function f orig oa ok) ?w1"
  obtain r w2 where c: "?c = (r, w2)" by (cases ?c)
  have "closure_calls (fst s) < closure_calls (fst (snd (call_original f orig a k oa ok s)))"
    using c
    by (simp add: call_original_def call_original_except_def Let_def split: sum.splits)
  then show ?thesis
    by (simp add: frame_kept_def)
qed

lemma exec_frame_kept:
  assumes "\<And>a k s. frame_kept s (snd (co a k s))"
  shows "frame_kept s (snd (exec p co s))"
proof (induction p arbitrary: s
    rule: prog.induct [where ?P2.0 = "\<lambda>_. True" and ?P3.0 = "\<lambda>_. True"])
  case (CallOriginal a kw c)
  obtain r s' where x: "co a kw s = (r, s')" by (cases "co a kw s")
  have "frame_kept s s'" using assms[of s a kw] x by simp
  moreover have "frame_kept s' (snd (exec (c r) co s'))"
    using CallOriginal by blast
  ultimately show ?case
    using x by (simp add: frame_kept_trans)
next
  case (CallGuarded g a kw c)
  obtain r w' where x: "guarded_call g a kw (snd s) = (r, w')"
    by (cases "guarded_call g a kw (snd s)")
  have "frame_kept s (fst s, w')" by (simp add: frame_kept_def)
  moreover have "frame_kept (fst s, w') (snd (exec (c r) co (fst s, w')))"
    using CallGuarded(2) by blast
  ultimately show ?case
    using x by (simp add: frame_kept_trans)
next
  case (ActiveRun c)
  then show ?case by simp
next
  case (StartRun ts p)
  have "frame_kept s (fst s, snd (start_run ts (snd s)))" by (simp add: frame_kept_def)
  with StartRun[of "(fst s, snd (start_run ts (snd s)))"] show ?case
    by (simp add: frame_kept_trans)
next
  case (EndRun st p)
  have "frame_kept s (fst s, snd (end_run st (snd s)))" by (simp add: frame_kept_def)
  with EndRun[of "(fst s, snd (end_run st (snd s)))"] show ?case
    by (simp add: frame_kept_trans)
qed (simp_all add: frame_kept_def)

lemma start_run_testing [simp]: "testing (snd (start_run ts w)) = testing w"
  by (simp add: start_run_def Let_def)

lemma end_run_testing [simp]: "testing (snd (end_run st w)) = testing w"
  by (simp add: end_run_def split: list.splits)

lemma try_mlflow_log_testing:
  assumes "\<And>w. testing (snd (fn w)) = testing w"
  shows "testing (snd (try_mlflow_log fn w)) = testing w"
proof -
  obtain r w' where f: "fn w = (r, w')" by (cases "fn w")
  with assms[of w] have "testing w' = testing w" by simp
  with f show ?thesis
    by (simp add: try_mlflow_log_def log_warning_def is_testing_def split: sum.splits)
qed

lemma call_function_testing [simp]: "testing (snd (call_function f orig a k w)) = testing w"
  by (simp add: call_function_def split: prod.splits)

lemma log_event_testing [simp]: "testing (try_log_autologging_event k f a kw x w) = testing w"
  by (simp add: try_log_autologging_event_def)

lemma thread_scope_testing:
  assumes "\<And>w. testing (snd (body w)) = testing w"
  shows "testing (snd (set_non_mlflow_warnings_behavior_for_current_thread d r body w)) = testing w"
proof -
  let ?w = "w\<lparr>non_mlflow_warnings := \<lparr>disable_warnings = d, reroute_warnings = r\<rparr>\<rparr>"
  obtain x w' where b: "body ?w = (x, w')" by (cases "body ?w")
  with assms[of ?w] have "testing w' = testing w" by simp
  with b show ?thesis
    by (simp add: set_non_mlflow_warnings_behavior_for_current_thread_def)
qed

lemma call_original_testing:
  "testing (snd (snd (call_original f orig a k oa ok s))) = testing (snd s)"
proof -
  let ?w1 = "try_log_autologging_event original_function_start f oa ok None (snd s)"
  let ?c = "set_non_mlflow_warnings_behavior_for_current_thread False False (call_function f orig oa ok) ?w1"
  obtain r w2 where c: "?c = (r, w2)" by (cases ?c)
  have "testing (snd ?c) = testing ?w1"
    by (rule thread_scope_testing) simp
  with c have "testing w2 = testing (snd s)" by simp
  with c show ?thesis
    by (simp add: call_original_def call_original_except_def Let_def split: sum.splits)
qed

lemma skip_instrumentation_diagnostics [simp]:
  "skip_instrumentation (w\<lparr>mlflow_events_and_warnings := m, non_mlflow_warnings := n\<rparr>) i
   = skip_instrumentation w i"
  by (simp add: skip_instrumentation_def get_autologging_config_def active_run_def
      active_session_def autologging_is_disabled_def)

lemma safe_patch_function_instrumented:
  assumes "\<not> skip_instrumentation w i"
  shows "safe_patch_function i f pf orig a k w =
     (case safe_patch_session_body i f (apply_patch_function pf) orig (active_run w) a k
             (enter_scopes i w) of
        (r, w') \<Rightarrow> (r, leave_scopes w w'))"
  using assms
  by (simp add: safe_patch_function_def Let_def
      set_mlflow_events_and_warnings_behavior_globally_def
      set_non_mlflow_warnings_behavior_for_current_thread_def
      start_session_def enter_scopes_def leave_scopes_def end_session_def active_run_def
      split: prod.splits)

lemma safe_patch_function_skipped:
  assumes "skip_instrumentation w i"
  shows "safe_patch_function i f pf orig a k w =
     (fst (orig a k (library w)),
      w\<lparr>library := snd (orig a k (library w)),
        original_calls := original_calls w @
          [\<lparr>called = f, call_args = a, call_kwargs = k,
            call_warnings = \<lparr>disable_warnings = False, reroute_warnings = False\<rparr>\<rparr>]\<rparr>)"
  using assms
  by (simp add: safe_patch_function_def Let_def
      set_mlflow_events_and_warnings_behavior_globally_def
      set_non_mlflow_warnings_behavior_for_current_thread_def call_function_def
      split: prod.splits)

section \<open>The session body\<close>

lemma session_body_returns:
  assumes "po (call_original f orig a k) a k
             (new_frame, try_log_autologging_event patch_function_start f a k None w) = (Return v, fr, w2)"
  shows "safe_patch_session_body i f po orig pre a k w =
           safe_patch_return i f orig pre a k
             (fr, try_log_autologging_event patch_function_success f a k None
                    (set_session_state Succeeded w2))"
  using assms by (simp add: safe_patch_session_body_def)

lemma session_body_raises:
  assumes "po (call_original f orig a k) a k
             (new_frame, try_log_autologging_event patch_function_start f a k None w) = (Raise e, fr, w2)"
  shows "safe_patch_session_body i f po orig pre a k w =
           (if is_Exception e
            then (if failed_during_original fr \<or> testing w2
                  then (Raise e, set_session_state Failed w2)
                  else safe_patch_return i f orig pre a k
                         (fr, log_warning e
                                (try_log_autologging_event patch_function_error f a k (Some e)
                                   (set_session_state Failed w2))))
            else (Raise e, w2))"
  using assms by (simp add: safe_patch_session_body_def Let_def is_testing_def set_session_state_def)

text \<open>
  C6. For every \<^verbatim>\<open>PatchFunction\<close> instance: if \<^verbatim>\<open>_patch_implementation\<close>
  raises an exception or a keyboard interrupt E, then \<^verbatim>\<open>_on_exception\<close> is invoked
  with E in the state the implementation left, and whether the callback returns or raises
  itself, the call raises E from the state the callback left: the callback cannot suppress
  E.
\<close>

theorem on_exception_cannot_suppress:
  assumes "patch_implementation original args kwargs (self, s) = (Raise E, self', s')"
    and "is_Exception_or_KeyboardInterrupt E"
  shows "PatchFunction_call patch_implementation on_exception self original args kwargs s =
           (Raise E, snd (snd (on_exception original E (self', s'))))"
  using assms
  by (simp add: PatchFunction_call_def try_finally_def split: prod.splits sum.splits)


section \<open>Properties preserved by the wrappers\<close>

lemma patch_with_managed_run_preserves:
  assumes refl: "\<And>s. Q s s" and trans: "\<And>s s' s''. Q s s' \<Longrightarrow> Q s' s'' \<Longrightarrow> Q s s''"
    and start: "\<And>s. Q s (snd (on_world (try_mlflow_log (create_managed_run ts)) s))"
    and stop: "\<And>s st. Q s (snd (on_world (try_mlflow_log (end_run st)) s))"
    and pf: "\<And>s. Q s (snd (pf co a k s))"
  shows "Q s (snd (patch_with_managed_run ts pf co a k s))"
proof -
  define X where "X = (if active_run (snd s) = None
            then on_world (try_mlflow_log (create_managed_run ts)) s
            else (Return None, s))"
  obtain r1 s1 where x: "X = (r1, s1)" by (cases X)
  have q1: "Q s s1"
    using x start[of s] refl[of s] by (auto simp: X_def split: if_splits)
  obtain r2 s2 where p: "pf co a k s1 = (r2, s2)" by (cases "pf co a k s1")
  have q2: "Q s1 s2" using pf[of s1] p by simp
  have q3: "Q s2 (snd (on_world (try_mlflow_log (end_run st)) s2))" for st
    by (rule stop)
  have q12: "Q s s2" using q1 q2 trans by blast
  have q13: "Q s (snd (on_world (try_mlflow_log (end_run st)) s2))" for st
    using q12 q3 trans by blast
  show ?thesis
    unfolding patch_with_managed_run_def X_def[symmetric] x
    using q1 q12 q13[of FAILED] q13[of FINISHED] p
    by (cases r1; cases r2) (auto split: prod.splits sum.splits)
qed

lemma PatchFunction_call_preserves:
  assumes refl: "\<And>s. Q s s" and trans: "\<And>s s' s''. Q s s' \<Longrightarrow> Q s' s'' \<Longrightarrow> Q s s''"
    and impl: "\<And>x. Q (snd x) (snd (snd (impl co a k x)))"
    and handler: "\<And>e x. Q (snd x) (snd (snd (on_exc co e x)))"
  shows "Q s (snd (PatchFunction_call impl on_exc self co a k s))"
proof -
  obtain r i1 s1 where p: "impl co a k (self, s) = (r, i1, s1)"
    by (cases "impl co a k (self, s)")
  have q1: "Q s s1" using impl[of "(self, s)"] p by simp
  show ?thesis
  proof (cases r)
    case (Inr v)
    with p q1 show ?thesis by (simp add: PatchFunction_call_def)
  next
    case (Inl e)
    obtain r2 i2 s2 where h: "on_exc co e (i1, s1) = (r2, i2, s2)"
      by (cases "on_exc co e (i1, s1)")
    have "Q s1 s2" using handler[of "(i1, s1)" e] h by simp
    with q1 have "Q s s2" using trans by blast
    with Inl p h q1 show ?thesis
      by (simp add: PatchFunction_call_def try_finally_def)
  qed
qed

lemma PatchWithManagedRun_patch_implementation_preserves:
  assumes refl: "\<And>s. Q s s" and trans: "\<And>s s' s''. Q s s' \<Longrightarrow> Q s' s'' \<Longrightarrow> Q s s''"
    and start: "\<And>s. Q s (snd (on_world (try_mlflow_log (create_managed_run ts)) s))"
    and stop: "\<And>s st. Q s (snd (on_world (try_mlflow_log (end_run st)) s))"
    and impl: "\<And>x. Q (snd x) (snd (snd (impl co a k x)))"
  shows "Q (snd x) (snd (snd (PatchWithManagedRun_patch_implementation ts impl co a k x)))"
proof -
  obtain m self s where xs: "x = ((m, self), s)" by (cases x) auto
  define X where "X = (if active_run (snd s) = None
                 then on_world (try_mlflow_log (create_managed_run ts)) s
                 else (Return m, s))"
  obtain r1 s1 where x: "X = (r1, s1)" by (cases X)
  have q1: "Q s s1"
    using x start[of s] refl[of s] by (auto simp: X_def split: if_splits)
  obtain r2 i2 s2 where p: "impl co a k (self, s1) = (r2, i2, s2)"
    by (cases "impl co a k (self, s1)")
  have q2: "Q s1 s2" using impl[of "(self, s1)"] p by simp
  have q12: "Q s s2" using q1 q2 trans by blast
  have q13: "Q s (snd (on_world (try_mlflow_log (end_run st)) s2))" for st
    using q12 stop trans by blast
  show ?thesis
    unfolding PatchWithManagedRun_patch_implementation_def xs
    using q1 q12 q13[of FINISHED] p x
    by (cases r1; cases r2) (auto simp: X_def[symmetric] split: prod.splits sum.splits)
qed

lemma PatchWithManagedRun_on_exception_preserves:
  assumes refl: "\<And>s. Q s s" and trans: "\<And>s s' s''. Q s s' \<Longrightarrow> Q s' s'' \<Longrightarrow> Q s s''"
    and stop: "\<And>s st. Q s (snd (on_world (try_mlflow_log (end_run st)) s))"
    and handler: "\<And>x. Q (snd x) (snd (snd (on_exc co e x)))"
  shows "Q (snd x) (snd (snd (PatchWithManagedRun_on_exception on_exc co e x)))"
proof -
  obtain m self s where xs: "x = ((m, self), s)" by (cases x) auto
  show ?thesis
  proof (cases m)
    case None
    obtain r2 i2 s2 where p: "on_exc co e (self, s) = (r2, i2, s2)"
      by (cases "on_exc co e (self, s)")
    have "Q s s2" using handler[of "(self, s)"] p by simp
    with None p show ?thesis
      by (simp add: PatchWithManagedRun_on_exception_def xs)
  next
    case (Some r)
    obtain r1 s1 where x: "on_world (try_mlflow_log (end_run FAILED)) s = (r1, s1)"
      by (cases "on_world (try_mlflow_log (end_run FAILED)) s")
    have q1: "Q s s1" using stop[of s FAILED] x by simp
    obtain r2 i2 s2 where p: "on_exc co e (self, s1) = (r2, i2, s2)"
      by (cases "on_exc co e (self, s1)")
    have "Q s1 s2" using handler[of "(self, s1)"] p by simp
    with q1 have "Q s s2" using trans by blast
    with Some p x q1 show ?thesis
      by (cases r1) (simp_all add: PatchWithManagedRun_on_exception_def xs)
  qed
qed

lemma on_world_frame [simp]: "fst (snd (on_world g s)) = fst s"
  by (simp add: on_world_def split: prod.splits)

lemma installed_patch_preserves:
  assumes Qrefl: "\<And>s. Q s s" and Qtrans: "\<And>s s' s''. Q s s' \<Longrightarrow> Q s' s'' \<Longrightarrow> Q s s''"
    and start: "\<And>s ts. Q s (snd (on_world (try_mlflow_log (create_managed_run ts)) s))"
    and stop: "\<And>s st. Q s (snd (on_world (try_mlflow_log (end_run st)) s))"
    and trees: "case p of
        FunctionPatch f \<Rightarrow> (\<forall>s. Q s (snd (exec (f a k) co s)))
      | ClassPatch f h \<Rightarrow> (\<forall>s. Q s (snd (exec (f a k) co s))) \<and> (\<forall>e s. Q s (snd (exec (h e) co s)))"
  shows "Q s (snd (installed_patch i p m co a k s))"
proof (cases p)
  case (FunctionPatch f)
  with trees have body: "\<And>s. Q s (snd (exec (f a k) co s))"
    by (simp del: split_paired_All)
  show ?thesis
  proof (cases m)
    case True
    have "Q s (snd (patch_with_managed_run [(MLFLOW_AUTOLOGGING, i)]
                 (\<lambda>original a kw. exec (f a kw) original) co a k s))"
      by (rule patch_with_managed_run_preserves[where Q = Q, OF Qrefl Qtrans start stop])
         (auto simp: body)
    with True FunctionPatch show ?thesis
      by (simp add: installed_patch_def with_managed_run_def apply_patch_function_def)
  next
    case False
    with FunctionPatch body show ?thesis
      by (simp add: installed_patch_def apply_patch_function_def)
  qed
next
  case (ClassPatch f h)
  with trees have body: "\<And>s. Q s (snd (exec (f a k) co s))"
    and handler: "\<And>e s. Q s (snd (exec (h e) co s))"
    by (simp_all del: split_paired_All)
  let ?impl = "\<lambda>original a kw x. case exec (f a kw) original (snd x) of (r, s') \<Rightarrow> (r, fst x, s')"
  let ?on_exc = "\<lambda>original e x. case exec (h e) original (snd x) of
                    (r, s') \<Rightarrow> (map_sum id (\<lambda>_. ()) r, fst x, s')"
  have impl: "Q (snd x) (snd (snd (?impl co a k x)))" for x :: "unit \<times> 'a st"
    using body[of "snd x"] by (cases "exec (f a k) co (snd x)") simp
  have on_exc: "Q (snd x) (snd (snd (?on_exc co e x)))" for e and x :: "unit \<times> 'a st"
    using handler[of "snd x" e] by (cases "exec (h e) co (snd x)") simp
  show ?thesis
  proof (cases m)
    case True
    have "Q s (snd (PatchFunction_call
                 (PatchWithManagedRun_patch_implementation [(MLFLOW_AUTOLOGGING, i)] ?impl)
                 (PatchWithManagedRun_on_exception ?on_exc) (None, ()) co a k s))"
    proof (rule PatchFunction_call_preserves[where Q = Q], goal_cases)
      case 1 show ?case by (rule Qrefl)
    next
      case 2 then show ?case by (rule Qtrans)
    next
      show "Q (snd x) (snd (snd (PatchWithManagedRun_patch_implementation
              [(MLFLOW_AUTOLOGGING, i)] ?impl co a k x)))"
        for x :: "(nat option \<times> unit) \<times> 'a st"
        by (rule PatchWithManagedRun_patch_implementation_preserves
              [where Q = Q and impl = ?impl, OF Qrefl Qtrans start stop])
           (assumption | rule impl)+
      show "Q (snd x) (snd (snd (PatchWithManagedRun_on_exception ?on_exc co e x)))"
        for e and x :: "(nat option \<times> unit) \<times> 'a st"
        by (rule PatchWithManagedRun_on_exception_preserves
              [where Q = Q and on_exc = ?on_exc, OF Qrefl Qtrans stop])
           (assumption | rule on_exc)+
    qed
    with True ClassPatch show ?thesis
      by (simp add: installed_patch_def with_managed_run_def apply_patch_function_def)
  next
    case False
    have "Q s (snd (PatchFunction_call ?impl ?on_exc () co a k s))"
      by (rule PatchFunction_call_preserves
            [where Q = Q and impl = ?impl and on_exc = ?on_exc, OF Qrefl Qtrans])
         (assumption | rule impl on_exc)+
    with False ClassPatch show ?thesis
      by (simp add: installed_patch_def apply_patch_function_def)
  qed
qed

lemma installed_patch_frame_kept:
  "frame_kept s (snd (installed_patch i p m (call_original f orig a k) a' k' s))"
  by (intro installed_patch_preserves[where Q = frame_kept])
     (auto simp: frame_kept_refl exec_frame_kept call_original_frame_kept
        intro: frame_kept_trans frame_kept_same_frame split: patch.splits)

lemma installed_patch_closure_never_called:
  assumes "installed_patch i p m (call_original f orig a k) a' k' (new_frame, w) = (r, fr, w2)"
    and "closure_calls fr = 0"
  shows "fr = new_frame"
  using installed_patch_frame_kept[of "(new_frame, w)" i p m f orig a k a' k'] assms
  by (simp add: frame_kept_def new_frame_def)

lemma safe_patch_unfold:
  "safe_patch i f (patch_function_of p) m orig a k w =
     (if skip_instrumentation w i
      then (fst (orig a k (library w)),
            w\<lparr>library := snd (orig a k (library w)),
              original_calls := original_calls w @
                [\<lparr>called = f, call_args = a, call_kwargs = k,
                  call_warnings = \<lparr>disable_warnings = False, reroute_warnings = False\<rparr>\<rparr>]\<rparr>)
      else (case safe_patch_session_body i f (installed_patch i p m) orig (active_run w) a k
                   (enter_scopes i w) of
              (r, w') \<Rightarrow> (r, leave_scopes w w')))"
  by (simp add: safe_patch_def safe_patch_function_skipped safe_patch_function_instrumented
      installed_patch_def)

lemma safe_patch_return_testing:
  "testing (snd (safe_patch_return i f orig pre a k s)) = testing (snd s)"
  by (simp add: safe_patch_return_def Let_def split: sum.splits)

lemma session_body_testing:
  assumes "\<And>s. testing (snd (snd (po (call_original f orig a k) a k s))) = testing (snd s)"
  shows "testing (snd (safe_patch_session_body i f po orig pre a k w)) = testing w"
proof -
  let ?s0 = "(new_frame, try_log_autologging_event patch_function_start f a k None w)"
  obtain r fr w2 where p: "po (call_original f orig a k) a k ?s0 = (r, fr, w2)"
    by (cases "po (call_original f orig a k) a k ?s0")
  from assms[of ?s0] p have t: "testing w2 = testing w" by simp
  show ?thesis
  proof (cases r)
    case (Inl e)
    with p t show ?thesis
      by (simp add: session_body_raises safe_patch_return_testing set_session_state_def
          log_warning_def)
  next
    case (Inr v)
    with p t show ?thesis
      by (simp add: session_body_returns safe_patch_return_testing set_session_state_def)
  qed
qed

lemma enter_scopes_testing [simp]: "testing (enter_scopes i w) = testing w"
  by (simp add: enter_scopes_def Let_def)

lemma leave_scopes_testing [simp]: "testing (leave_scopes w w') = testing w'"
  by (simp add: leave_scopes_def end_session_def)

lemma tracking_testing:
  "testing (snd (snd (on_world (try_mlflow_log (create_managed_run ts)) s))) = testing (snd s)"
  "testing (snd (snd (on_world (try_mlflow_log (end_run st)) s))) = testing (snd s)"
proof -
  have "testing (snd (try_mlflow_log (create_managed_run ts) (snd s))) = testing (snd s)"
    by (rule try_mlflow_log_testing) (simp add: create_managed_run_def)
  then show "testing (snd (snd (on_world (try_mlflow_log (create_managed_run ts)) s))) = testing (snd s)"
    by (cases "try_mlflow_log (create_managed_run ts) (snd s)") (simp add: on_world_def)
  have "testing (snd (try_mlflow_log (end_run st) (snd s))) = testing (snd s)"
    by (rule try_mlflow_log_testing) simp
  then show "testing (snd (snd (on_world (try_mlflow_log (end_run st)) s))) = testing (snd s)"
    by (cases "try_mlflow_log (end_run st) (snd s)") (simp add: on_world_def)
qed

lemma keeps_testingD: "keeps_testing g \<Longrightarrow> testing (snd (snd (g s))) = testing (snd s)"
  by (simp add: keeps_testing_def del: split_paired_All)

lemma testing_invariant:
  fixes p :: "'u prog" and g :: "'u guarded" and pt :: "'u patch"
  shows "\<forall>co. (\<forall>a k. keeps_testing (co a k)) \<longrightarrow> keeps_testing (exec p co)"
  and "\<forall>a k w. testing (snd (guarded_call g a k w)) = testing w"
  and "\<forall>co a k. (\<forall>a k. keeps_testing (co a k)) \<longrightarrow>
          (case pt of
             FunctionPatch f \<Rightarrow> keeps_testing (exec (f a k) co)
           | ClassPatch f h \<Rightarrow> keeps_testing (exec (f a k) co) \<and> (\<forall>e. keeps_testing (exec (h e) co)))"
proof (induction p and g and pt)
  case (Ret v)
  then show ?case by (simp add: keeps_testing_def)
next
  case (Throw e)
  then show ?case by (simp add: keeps_testing_def)
next
  case (CallOriginal a kw c)
  show ?case
  proof (intro allI impI)
    fix co :: "'u callable"
    assume co: "\<forall>a k. keeps_testing (co a k)"
    have ih: "keeps_testing (exec (c r) co)" for r
      using CallOriginal co by blast
    show "keeps_testing (exec (CallOriginal a kw c) co)"
      unfolding keeps_testing_def
    proof
      fix s :: "'u st"
      obtain r s' where x: "co a kw s = (r, s')" by (cases "co a kw s")
      from co have "keeps_testing (co a kw)" by blast
      from keeps_testingD[OF this, of s] x have "testing (snd s') = testing (snd s)"
        by simp
      with keeps_testingD[OF ih[of r], of s'] x
      show "testing (snd (snd (exec (CallOriginal a kw c) co s))) = testing (snd s)"
        by simp
    qed
  qed
next
  case (ActiveRun c)
  then show ?case by (auto simp: keeps_testing_def)
next
  case (StartRun ts p)
  then show ?case by (auto simp: keeps_testing_def)
next
  case (EndRun st p)
  then show ?case by (auto simp: keeps_testing_def)
next
  case (CallGuarded g a kw c)
  show ?case
  proof (intro allI impI)
    fix co :: "'u callable"
    assume co: "\<forall>a k. keeps_testing (co a k)"
    have ih: "keeps_testing (exec (c r) co)" for r
      using CallGuarded co by blast
    show "keeps_testing (exec (CallGuarded g a kw c) co)"
      unfolding keeps_testing_def
    proof
      fix s :: "'u st"
      obtain r w' where x: "guarded_call g a kw (snd s) = (r, w')"
        by (cases "guarded_call g a kw (snd s)")
      from CallGuarded(1) x have "testing w' = testing (snd s)"
        by (metis snd_conv)
      with keeps_testingD[OF ih[of r], of "(fst s, w')"] x
      show "testing (snd (snd (exec (CallGuarded g a kw c) co s))) = testing (snd s)"
        by simp
    qed
  qed
next
  case (Guarded i f pt m orig)
  show ?case
  proof (intro allI)
    fix a k w
    let ?co = "call_original f orig a k"
    have co: "\<forall>a' k'. keeps_testing (?co a' k')"
      by (simp add: keeps_testing_def call_original_testing)
    have trees: "case pt of
        FunctionPatch f \<Rightarrow> (\<forall>s. testing (snd (snd (exec (f a k) ?co s))) = testing (snd s))
      | ClassPatch f h \<Rightarrow> (\<forall>s. testing (snd (snd (exec (f a k) ?co s))) = testing (snd s))
           \<and> (\<forall>e s. testing (snd (snd (exec (h e) ?co s))) = testing (snd s))"
      using Guarded co by (auto simp: keeps_testing_def split: patch.splits)
    have "testing (snd (snd (installed_patch i pt m ?co a k s))) = testing (snd s)" for s
      by (rule installed_patch_preserves
            [where Q = "\<lambda>s s'. testing (snd s') = testing (snd s)"])
         (insert trees, auto simp: tracking_testing)
    then have "testing (snd (safe_patch_session_body i f (installed_patch i pt m) orig
                 (active_run w) a k (enter_scopes i w))) = testing w"
      by (simp add: session_body_testing)
    then show "testing (snd (guarded_call (Guarded i f pt m orig) a k w)) = testing w"
      by (cases "safe_patch_session_body i f (installed_patch i pt m) orig
                 (active_run w) a k (enter_scopes i w)")
         (simp add: safe_patch_unfold)
  qed
next
  case (FunctionPatch f)
  then show ?case by auto
next
  case (ClassPatch f h)
  then show ?case by auto
qed

section \<open>The guarded call unfolded\<close>

lemma installed_patch_testing:
  "testing (snd (snd (installed_patch i p m (call_original f orig a k) a' k' s))) = testing (snd s)"
proof -
  let ?co = "call_original f orig a k"
  have co: "\<forall>a' k'. keeps_testing (?co a' k')"
    by (simp add: keeps_testing_def call_original_testing)
  have trees: "case p of
        FunctionPatch f \<Rightarrow> (\<forall>s. testing (snd (snd (exec (f a' k') ?co s))) = testing (snd s))
      | ClassPatch f h \<Rightarrow> (\<forall>s. testing (snd (snd (exec (f a' k') ?co s))) = testing (snd s))
           \<and> (\<forall>e s. testing (snd (snd (exec (h e) ?co s))) = testing (snd s))"
    using testing_invariant(3)[of p] co
    by (cases p) (auto simp: keeps_testing_def)
  show ?thesis
    by (rule installed_patch_preserves
            [where Q = "\<lambda>s s'. testing (snd s') = testing (snd s)"])
       (insert trees, auto simp: tracking_testing)
qed

lemma patch_entry_testing [simp]: "testing (snd (patch_entry i f a k w)) = testing w"
  by (simp add: patch_entry_def)

lemma patch_entry_frame [simp]: "fst (patch_entry i f a k w) = new_frame"
  by (simp add: patch_entry_def)

lemma set_session_state_fields [simp]:
  "testing (set_session_state x w) = testing w"
  "library (set_session_state x w) = library w"
  "original_calls (set_session_state x w) = original_calls w"
  "event_log (set_session_state x w) = event_log w"
  "warning_log (set_session_state x w) = warning_log w"
  "run_store (set_session_state x w) = run_store w"
  "active_run_stack (set_session_state x w) = active_run_stack w"
  "session (set_session_state x w) = map_option (\<lambda>s. s\<lparr>state := x\<rparr>) (session w)"
  by (simp_all add: set_session_state_def)

lemma log_event_fields [simp]:
  "library (try_log_autologging_event kd f a k x w) = library w"
  "original_calls (try_log_autologging_event kd f a k x w) = original_calls w"
  "session (try_log_autologging_event kd f a k x w) = session w"
  "warning_log (try_log_autologging_event kd f a k x w) = warning_log w"
  "run_store (try_log_autologging_event kd f a k x w) = run_store w"
  "active_run_stack (try_log_autologging_event kd f a k x w) = active_run_stack w"
  by (simp_all add: try_log_autologging_event_def)

lemma log_warning_fields [simp]:
  "testing (log_warning e w) = testing w"
  "library (log_warning e w) = library w"
  "original_calls (log_warning e w) = original_calls w"
  "session (log_warning e w) = session w"
  "event_log (log_warning e w) = event_log w"
  "run_store (log_warning e w) = run_store w"
  "active_run_stack (log_warning e w) = active_run_stack w"
  by (simp_all add: log_warning_def)

lemma leave_scopes_fields [simp]:
  "library (leave_scopes w w') = library w'"
  "original_calls (leave_scopes w w') = original_calls w'"
  "event_log (leave_scopes w w') = event_log w'"
  "warning_log (leave_scopes w w') = warning_log w'"
  "run_store (leave_scopes w w') = run_store w'"
  "active_run_stack (leave_scopes w w') = active_run_stack w'"
  "session (leave_scopes w w') = (if session w = None then None else session w')"
  by (simp_all add: leave_scopes_def end_session_def)

lemma call_function_fields [simp]:
  "fst (call_function f orig a k w) = fst (orig a k (library w))"
  "library (snd (call_function f orig a k w)) = snd (orig a k (library w))"
  "original_calls (snd (call_function f orig a k w)) =
     original_calls w @ [\<lparr>called = f, call_args = a, call_kwargs = k,
                            call_warnings = non_mlflow_warnings w\<rparr>]"
  "session (snd (call_function f orig a k w)) = session w"
  "event_log (snd (call_function f orig a k w)) = event_log w"
  "warning_log (snd (call_function f orig a k w)) = warning_log w"
  "run_store (snd (call_function f orig a k w)) = run_store w"
  "active_run_stack (snd (call_function f orig a k w)) = active_run_stack w"
  by (simp_all add: call_function_def split: prod.splits)

lemma session_body_entry:
  "safe_patch_session_body i f po orig pre a k (enter_scopes i w) =
     (case po (call_original f orig a k) a k (patch_entry i f a k w) of
        (Return v, fr, w2) \<Rightarrow>
          safe_patch_return i f orig pre a k
            (fr, try_log_autologging_event patch_function_success f a k None
                   (set_session_state Succeeded w2))
      | (Raise e, fr, w2) \<Rightarrow>
          if is_Exception e
          then (if failed_during_original fr \<or> testing w2
                then (Raise e, set_session_state Failed w2)
                else safe_patch_return i f orig pre a k
                       (fr, log_warning e
                              (try_log_autologging_event patch_function_error f a k (Some e)
                                 (set_session_state Failed w2))))
          else (Raise e, w2))"
  by (simp add: safe_patch_session_body_def patch_entry_def Let_def is_testing_def
      split: prod.splits sum.splits)

lemma guarded_call_unfold:
  assumes "\<not> skip_instrumentation w i"
  shows "guarded_call (Guarded i f p m orig) a k w =
     (fst (safe_patch_session_body i f (installed_patch i p m) orig (active_run w) a k
             (enter_scopes i w)),
      leave_scopes w
        (snd (safe_patch_session_body i f (installed_patch i p m) orig (active_run w) a k
                (enter_scopes i w))))"
  using assms by (simp add: safe_patch_unfold split: prod.splits)

section \<open>Interrupts\<close>

lemma safe_patch_return_session [simp]:
  "session (snd (safe_patch_return i f orig pre a k s)) = session (snd s)"
  by (simp add: safe_patch_return_def Let_def split: sum.splits)


text \<open>
  C10. If the patch implementation ends with a \<^verbatim>\<open>KeyboardInterrupt\<close>, the guarded
  call raises it, and the state it leaves is the one the patch implementation left with
  the scopes closed: the state of the session is not assigned, no event and no warning is
  logged. The managed-run wrapper ends the run it created with status FAILED before the
  interrupt goes on, and \<^verbatim>\<open>PatchFunction.__call__\<close> runs \<^verbatim>\<open>_on_exception\<close>
  before it goes on. This holds in production mode and in test mode.
\<close>

theorem keyboard_interrupt_not_swallowed:
  assumes "\<not> skip_instrumentation w i"
    and "installed_patch i p m (call_original f orig a k) a k (patch_entry i f a k w)
           = (Raise KeyboardInterrupt, fr, w2)"
  shows "guarded_call (Guarded i f p m orig) a k w = (Raise KeyboardInterrupt, leave_scopes w w2)
     \<and> session (snd (guarded_call (Guarded i f p m orig) a k w)) =
         (if session w = None then None else session w2)
     \<and> event_log (snd (guarded_call (Guarded i f p m orig) a k w)) = event_log w2
     \<and> warning_log (snd (guarded_call (Guarded i f p m orig) a k w)) = warning_log w2
     \<and> (active_run (snd s) = None \<longrightarrow>
          pf co a' k' (fst s, snd (start_run ts (snd s))) = (Raise KeyboardInterrupt, s2) \<longrightarrow>
          patch_with_managed_run ts pf co a' k' s =
            (Raise KeyboardInterrupt, fst s2, snd (end_run FAILED (snd s2))))
     \<and> (impl co a' k' (self, s) = (Raise KeyboardInterrupt, self', s') \<longrightarrow>
          PatchFunction_call impl on_exc self co a' k' s =
            (Raise KeyboardInterrupt, snd (snd (on_exc co KeyboardInterrupt (self', s')))))"
proof -
  have 1: "guarded_call (Guarded i f p m orig) a k w = (Raise KeyboardInterrupt, leave_scopes w w2)"
    unfolding guarded_call_unfold[OF assms(1)]
    using assms(2) by (simp add: session_body_entry)
  have 2: "patch_with_managed_run ts pf co a' k' s =
            (Raise KeyboardInterrupt, fst s2, snd (end_run FAILED (snd s2)))"
    if "active_run (snd s) = None"
      and "pf co a' k' (fst s, snd (start_run ts (snd s))) = (Raise KeyboardInterrupt, s2)"
    using that
    by (simp add: patch_with_managed_run_def on_world_def try_mlflow_log_def
        create_managed_run_def start_run_def end_run_def Let_def
        is_Exception_or_KeyboardInterrupt_def split: prod.splits list.splits)
  have 3: "PatchFunction_call impl on_exc self co a' k' s =
            (Raise KeyboardInterrupt, snd (snd (on_exc co KeyboardInterrupt (self', s'))))"
    if "impl co a' k' (self, s) = (Raise KeyboardInterrupt, self', s')"
    using that
    by (simp add: PatchFunction_call_def try_finally_def is_Exception_or_KeyboardInterrupt_def
        split: prod.splits sum.splits)
  show ?thesis
    using 1 2 3 by simp
qed

section \<open>Managed runs\<close>

lemma try_create_managed_run:
  "try_mlflow_log (create_managed_run ts) w = (Return (Some (length (run_store w))), snd (start_run ts w))"
  by (simp add: try_mlflow_log_def create_managed_run_def start_run_def Let_def)


lemma active_run_None: "(active_run w = None) = (active_run_stack w = [])"
  by (simp add: active_run_def split: list.splits)





section \<open>The patch implementation under its wrappers\<close>

lemma patch_entry_active_run [simp]: "active_run (snd (patch_entry i f a k w)) = active_run w"
  by (simp add: patch_entry_def enter_scopes_def try_log_autologging_event_def active_run_def
      Let_def)

lemma try_end_run_any:
  "try_mlflow_log (end_run st) w = (Return (Some ()), snd (end_run st w))"
  by (simp add: try_mlflow_log_def end_run_def split: list.splits)

lemma body_entry_frame [simp]: "fst (body_entry i f m a k w) = new_frame"
  by (simp add: body_entry_def Let_def)

lemma body_entry_testing [simp]: "testing (snd (body_entry i f m a k w)) = testing w"
  by (simp add: body_entry_def Let_def create_managed_run_def)




section \<open>Calls of the original through the closure\<close>










section \<open>The outcome of the guarded call\<close>



lemma end_run_fields [simp]:
  "library (snd (end_run st w)) = library w"
  "original_calls (snd (end_run st w)) = original_calls w"
  "session (snd (end_run st w)) = session w"
  "session_log (snd (end_run st w)) = session_log w"
  by (simp_all add: end_run_def split: list.splits)


section \<open>The session and its log\<close>

lemma keeps_sessionD: "keeps_session g \<Longrightarrow> session_kept (snd s) (snd (snd (g s)))"
  by (simp add: keeps_session_def del: split_paired_All)

lemma session_kept_refl: "session_kept w w"
  by (simp add: session_kept_def)

lemma session_kept_trans:
  assumes "session_kept w w'" and "session_kept w' w''"
  shows "session_kept w w''"
proof -
  from assms(1) obtain tr where tr: "session_log w' = session_log w @ tr"
    and ids: "\<And>s e. session w = Some s \<Longrightarrow> e \<in> set tr \<Longrightarrow>
                fst e = session_id s \<and> snd e \<noteq> Running"
    and ses: "\<And>s. session w = Some s \<Longrightarrow>
                (\<exists>s'. session w' = Some s' \<and> session_id s' = session_id s
                      \<and> integration s' = integration s)
                \<and> uuid_counter w' = uuid_counter w"
    unfolding session_kept_def by blast
  from assms(2) obtain tr' where tr': "session_log w'' = session_log w' @ tr'"
    and ids': "\<And>s e. session w' = Some s \<Longrightarrow> e \<in> set tr' \<Longrightarrow>
                fst e = session_id s \<and> snd e \<noteq> Running"
    and ses': "\<And>s. session w' = Some s \<Longrightarrow>
                (\<exists>s'. session w'' = Some s' \<and> session_id s' = session_id s
                      \<and> integration s' = integration s)
                \<and> uuid_counter w'' = uuid_counter w'"
    unfolding session_kept_def by blast
  have log: "session_log w'' = session_log w @ (tr @ tr')"
    using tr tr' by simp
  have "fst e = session_id s \<and> snd e \<noteq> Running"
    if "session w = Some s" and "e \<in> set (tr @ tr')" for s e
  proof -
    from ses[OF that(1)] obtain s' where s': "session w' = Some s'"
      and "session_id s' = session_id s" by blast
    from that(2) have "e \<in> set tr \<or> e \<in> set tr'" by simp
    then show ?thesis
    proof
      assume "e \<in> set tr"
      from ids[OF that(1) this] show ?thesis .
    next
      assume "e \<in> set tr'"
      from ids'[OF s' this] \<open>session_id s' = session_id s\<close> show ?thesis by simp
    qed
  qed
  moreover have "(\<exists>s'. session w'' = Some s' \<and> session_id s' = session_id s
                      \<and> integration s' = integration s)
                \<and> uuid_counter w'' = uuid_counter w" if "session w = Some s" for s
  proof -
    from ses[OF that] obtain s' where s': "session w' = Some s'"
      and "session_id s' = session_id s" "integration s' = integration s"
      and "uuid_counter w' = uuid_counter w" by blast
    with ses'[OF s'] show ?thesis by auto
  qed
  ultimately show ?thesis
    unfolding session_kept_def using log by blast
qed

lemma session_kept_same:
  "session_log w' = session_log w \<Longrightarrow> session w' = session w \<Longrightarrow>
   uuid_counter w' = uuid_counter w \<Longrightarrow> session_kept w w'"
  by (simp add: session_kept_def)

lemma uuid_counter_fields [simp]:
  "uuid_counter (snd (start_run ts w)) = uuid_counter w"
  "uuid_counter (snd (end_run st w)) = uuid_counter w"
  "uuid_counter (try_log_autologging_event kd f a k x w) = uuid_counter w"
  "uuid_counter (log_warning e w) = uuid_counter w"
  "uuid_counter (snd (call_function f orig a k w)) = uuid_counter w"
  "uuid_counter (set_session_state y w) = uuid_counter w"
  "uuid_counter (leave_scopes w w') = uuid_counter w'"
  by (simp_all add: start_run_def end_run_def try_log_autologging_event_def log_warning_def
      call_function_def set_session_state_def leave_scopes_def end_session_def Let_def
      split: list.splits prod.splits)

lemma safe_patch_return_uuid_counter [simp]:
  "uuid_counter (snd (safe_patch_return i f orig pre a k s)) = uuid_counter (snd s)"
  by (simp add: safe_patch_return_def Let_def split: sum.splits)

lemma start_run_session_fields [simp]:
  "session (snd (start_run ts w)) = session w"
  "session_log (snd (start_run ts w)) = session_log w"
  by (simp_all add: start_run_def Let_def)

lemma log_event_session_log [simp]:
  "session_log (try_log_autologging_event kd f a k x w) = session_log w"
  by (simp add: try_log_autologging_event_def)

lemma log_warning_session_log [simp]: "session_log (log_warning e w) = session_log w"
  by (simp add: log_warning_def)

lemma call_function_session_log [simp]:
  "session_log (snd (call_function f orig a k w)) = session_log w"
  by (simp add: call_function_def split: prod.splits)

lemma set_session_state_session_log [simp]:
  "session_log (set_session_state x w) =
     session_log w @ (case session w of None \<Rightarrow> [] | Some s \<Rightarrow> [(session_id s, x)])"
  by (simp add: set_session_state_def)

lemma safe_patch_return_session_log [simp]:
  "session_log (snd (safe_patch_return i f orig pre a k s)) = session_log (snd s)"
  by (simp add: safe_patch_return_def Let_def split: sum.splits)

lemma leave_scopes_session_log [simp]: "session_log (leave_scopes w w') = session_log w'"
  by (simp add: leave_scopes_def end_session_def)

lemma call_original_session_fields [simp]:
  "session (snd (snd (call_original f orig a k oa ok s))) = session (snd s)"
  "session_log (snd (snd (call_original f orig a k oa ok s))) = session_log (snd s)"
  "uuid_counter (snd (snd (call_original f orig a k oa ok s))) = uuid_counter (snd s)"
  by (simp_all add: call_original_def call_original_except_def Let_def
      set_non_mlflow_warnings_behavior_for_current_thread_def call_function_def
      try_log_autologging_event_def split: prod.splits sum.splits)

lemma tracking_session_kept:
  "session_kept (snd s) (snd (snd (on_world (try_mlflow_log (create_managed_run ts)) s)))"
  "session_kept (snd s) (snd (snd (on_world (try_mlflow_log (end_run st)) s)))"
  by (simp_all add: on_world_def try_create_managed_run try_end_run_any session_kept_same)

lemma set_session_state_kept: "x \<noteq> Running \<Longrightarrow> session_kept w (set_session_state x w)"
  by (auto simp: session_kept_def)

lemma enter_scopes_session_kept: "session_kept w (enter_scopes i w)"
  by (auto simp: session_kept_def enter_scopes_def Let_def)

lemma leave_scopes_session_kept:
  "session_kept w w' \<Longrightarrow> session_kept w (leave_scopes w w')"
  by (auto simp: session_kept_def)

lemma session_body_session_kept:
  assumes "\<And>s. session_kept (snd s) (snd (snd (po (call_original f orig a k) a k s)))"
  shows "session_kept w (snd (safe_patch_session_body i f po orig pre a k w))"
proof -
  let ?s0 = "(new_frame, try_log_autologging_event patch_function_start f a k None w)"
  obtain r fr w2 where p: "po (call_original f orig a k) a k ?s0 = (r, fr, w2)"
    by (cases "po (call_original f orig a k) a k ?s0")
  from assms[of ?s0] p have "session_kept (snd ?s0) w2" by simp
  moreover have "session_kept w (snd ?s0)"
    by (simp add: session_kept_same)
  ultimately have k: "session_kept w w2"
    by (rule session_kept_trans[rotated])
  have st: "session_kept w (set_session_state x w2)" if "x \<noteq> Running" for x
    using k set_session_state_kept[OF that] by (rule session_kept_trans)
  have ret: "session_kept w (snd (safe_patch_return i f orig pre a k (fr', w')))"
    if "session_kept w w'" for fr' w'
    using that by (rule session_kept_trans) (simp add: session_kept_same)
  show ?thesis
  proof (cases r)
    case (Inl e)
    have "session_kept w (snd (safe_patch_return i f orig pre a k
            (fr, log_warning e (try_log_autologging_event patch_function_error f a k (Some e)
                   (set_session_state Failed w2)))))"
      by (rule ret, rule session_kept_trans[OF st[of Failed]]) (simp_all add: session_kept_same)
    with Inl p k st[of Failed] show ?thesis
      by (simp add: session_body_raises)
  next
    case (Inr v)
    have "session_kept w (snd (safe_patch_return i f orig pre a k
            (fr, try_log_autologging_event patch_function_success f a k None
                   (set_session_state Succeeded w2))))"
      by (rule ret, rule session_kept_trans[OF st[of Succeeded]]) (simp_all add: session_kept_same)
    with Inr p show ?thesis
      by (simp add: session_body_returns)
  qed
qed

lemma session_invariant:
  fixes p :: "'u prog" and g :: "'u guarded" and pt :: "'u patch"
  shows "\<forall>co. (\<forall>a k. keeps_session (co a k)) \<longrightarrow> keeps_session (exec p co)"
  and "\<forall>a k w. session_kept w (snd (guarded_call g a k w))"
  and "\<forall>co a k. (\<forall>a k. keeps_session (co a k)) \<longrightarrow>
          (case pt of
             FunctionPatch f \<Rightarrow> keeps_session (exec (f a k) co)
           | ClassPatch f h \<Rightarrow> keeps_session (exec (f a k) co) \<and> (\<forall>e. keeps_session (exec (h e) co)))"
proof (induction p and g and pt)
  case (Ret v)
  then show ?case by (simp add: keeps_session_def session_kept_refl)
next
  case (Throw e)
  then show ?case by (simp add: keeps_session_def session_kept_refl)
next
  case (CallOriginal a kw c)
  show ?case
  proof (intro allI impI)
    fix co :: "'u callable"
    assume co: "\<forall>a k. keeps_session (co a k)"
    have ih: "keeps_session (exec (c r) co)" for r
      using CallOriginal co by blast
    show "keeps_session (exec (CallOriginal a kw c) co)"
      unfolding keeps_session_def
    proof
      fix s :: "'u st"
      obtain r s' where x: "co a kw s = (r, s')" by (cases "co a kw s")
      from co have "keeps_session (co a kw)" by blast
      from keeps_sessionD[OF this, of s] x have "session_kept (snd s) (snd s')"
        by simp
      from session_kept_trans[OF this keeps_sessionD[OF ih[of r], of s']] x
      show "session_kept (snd s) (snd (snd (exec (CallOriginal a kw c) co s)))"
        by simp
    qed
  qed
next
  case (ActiveRun c)
  then show ?case by (auto simp: keeps_session_def)
next
  case (StartRun ts p)
  show ?case
  proof (intro allI impI)
    fix co :: "'u callable"
    assume co: "\<forall>a k. keeps_session (co a k)"
    with StartRun have ih: "keeps_session (exec p co)" by blast
    show "keeps_session (exec (StartRun ts p) co)"
      unfolding keeps_session_def
    proof
      fix s :: "'u st"
      have "session_kept (snd s) (snd (fst s, snd (start_run ts (snd s))))"
        by (simp add: session_kept_same)
      from session_kept_trans[OF this keeps_sessionD[OF ih]]
      show "session_kept (snd s) (snd (snd (exec (StartRun ts p) co s)))"
        by simp
    qed
  qed
next
  case (EndRun st p)
  show ?case
  proof (intro allI impI)
    fix co :: "'u callable"
    assume co: "\<forall>a k. keeps_session (co a k)"
    with EndRun have ih: "keeps_session (exec p co)" by blast
    show "keeps_session (exec (EndRun st p) co)"
      unfolding keeps_session_def
    proof
      fix s :: "'u st"
      have "session_kept (snd s) (snd (fst s, snd (end_run st (snd s))))"
        by (simp add: session_kept_same)
      from session_kept_trans[OF this keeps_sessionD[OF ih]]
      show "session_kept (snd s) (snd (snd (exec (EndRun st p) co s)))"
        by simp
    qed
  qed
next
  case (CallGuarded g a kw c)
  show ?case
  proof (intro allI impI)
    fix co :: "'u callable"
    assume co: "\<forall>a k. keeps_session (co a k)"
    have ih: "keeps_session (exec (c r) co)" for r
      using CallGuarded co by blast
    show "keeps_session (exec (CallGuarded g a kw c) co)"
      unfolding keeps_session_def
    proof
      fix s :: "'u st"
      obtain r w' where x: "guarded_call g a kw (snd s) = (r, w')"
        by (cases "guarded_call g a kw (snd s)")
      from CallGuarded(1) x have "session_kept (snd s) (snd (fst s, w'))"
        by (metis snd_conv)
      from session_kept_trans[OF this keeps_sessionD[OF ih[of r], of "(fst s, w')"]] x
      show "session_kept (snd s) (snd (snd (exec (CallGuarded g a kw c) co s)))"
        by simp
    qed
  qed
next
  case (Guarded i f pt m orig)
  show ?case
  proof (intro allI)
    fix a k w
    let ?co = "call_original f orig a k"
    have co: "\<forall>a' k'. keeps_session (?co a' k')"
      by (simp add: keeps_session_def session_kept_same)
    have trees: "case pt of
        FunctionPatch f \<Rightarrow> (\<forall>s. session_kept (snd s) (snd (snd (exec (f a k) ?co s))))
      | ClassPatch f h \<Rightarrow> (\<forall>s. session_kept (snd s) (snd (snd (exec (f a k) ?co s))))
           \<and> (\<forall>e s. session_kept (snd s) (snd (snd (exec (h e) ?co s))))"
      using Guarded co by (auto simp: keeps_session_def split: patch.splits)
    have "session_kept (snd s) (snd (snd (installed_patch i pt m ?co a k s)))" for s
      by (rule installed_patch_preserves
            [where Q = "\<lambda>s s'. session_kept (snd s) (snd s')"])
         (insert trees, auto simp: tracking_session_kept session_kept_refl
            intro: session_kept_trans)
    then have "session_kept (enter_scopes i w)
                 (snd (safe_patch_session_body i f (installed_patch i pt m) orig
                 (active_run w) a k (enter_scopes i w)))"
      by (rule session_body_session_kept)
    with enter_scopes_session_kept[of w i]
    have "session_kept w (snd (safe_patch_session_body i f (installed_patch i pt m) orig
                 (active_run w) a k (enter_scopes i w)))"
      by (rule session_kept_trans)
    then have "session_kept w (leave_scopes w (snd (safe_patch_session_body i f
                 (installed_patch i pt m) orig (active_run w) a k (enter_scopes i w))))"
      by (rule leave_scopes_session_kept)
    then show "session_kept w (snd (guarded_call (Guarded i f pt m orig) a k w))"
      by (cases "safe_patch_session_body i f (installed_patch i pt m) orig
                 (active_run w) a k (enter_scopes i w)")
         (simp add: safe_patch_unfold session_kept_same)
  qed
next
  case (FunctionPatch f)
  then show ?case by auto
next
  case (ClassPatch f h)
  then show ?case by auto
qed

lemma exec_session_kept:
  "session_kept (snd s) (snd (snd (exec p (call_original f orig a k) s)))"
proof -
  have "\<forall>a' k'. keeps_session (call_original f orig a k a' k')"
    by (simp add: keeps_session_def session_kept_same)
  with session_invariant(1)[of p] have "keeps_session (exec p (call_original f orig a k))"
    by blast
  then show ?thesis
    by (rule keeps_sessionD)
qed





section \<open>Failures of the instrumentation, failures of the original, and the session\<close>




section \<open>Scenarios and the registry\<close>

lemmas scenario_defs =
  always_raises_def forwarding_def forwarding_patch_def swallowing_patch_def failing_patch_def
  forwarding_class_patch_def failing_class_patch_def idle_patch_def same_raising_patch_def
  interrupted_patch_def nesting_patch_def run_ending_patch_def run_leaking_patch_def
  scenario_A_patch_def scenario_A_original_def initial_world_def default_config_def

lemmas model_defs =
  safe_patch_def safe_patch_function_def get_autologging_config_def skip_instrumentation_def
  autologging_is_disabled_def active_run_def active_session_def
  set_mlflow_events_and_warnings_behavior_globally_def
  set_non_mlflow_warnings_behavior_for_current_thread_def
  start_session_def safe_patch_session_body_def apply_patch_function_def call_original_def
  call_original_except_def try_log_autologging_event_def new_frame_def is_testing_def
  call_function_def validate_args_def validate.simps kwargs_dict_def safe_patch_return_def
  set_session_state_def end_session_def log_warning_def with_managed_run_def
  patch_with_managed_run_def on_world_def try_mlflow_log_def create_managed_run_def
  start_run_def end_run_def set_status_def validate_autologging_run_def get_run_def
  MLFLOW_AUTOLOGGING_def PatchFunction_call_def try_finally_def
  is_Exception_or_KeyboardInterrupt_def Let_def

text \<open>
  C3 (amended). With the patch implementation \<^verbatim>\<open>f(original, x) = original(x) + 1\<close>
  and the original \<^verbatim>\<open>x -> x*2\<close>, the guarded call with argument 5 returns 10, the
  result of the original (the value the patch implementation returns is dropped), and the
  original is invoked exactly once, in either mode.
\<close>

theorem scenario_A_returns_original_result:
  "fst (guarded_call (Guarded i f scenario_A_patch False scenario_A_original) [VInt 5] []
          (initial_world t ())) = Return (VInt 10)
   \<and> map call_args (original_calls (snd (guarded_call
          (Guarded i f scenario_A_patch False scenario_A_original) [VInt 5] []
          (initial_world t ())))) = [[VInt 5]]"
  by (simp add: scenario_defs model_defs)

text \<open>
  C3 as stated fails: the guarded call does not return 11.
\<close>

theorem scenario_A_does_not_return_11:
  "fst (guarded_call (Guarded ''sklearn'' ''fit'' scenario_A_patch False scenario_A_original)
          [VInt 5] [] (initial_world False ())) \<noteq> Return (VInt 11)"
  by (simp add: scenario_defs model_defs)





text \<open>
  C8. Evaluation at the failing input: with one patch recorded for the integration
  \<^verbatim>\<open>sklearn\<close>, reverting under the umbrella name \<^verbatim>\<open>mlflow\<close> changes
  nothing: the patch stays applied and recorded.
\<close>

theorem revert_patches_umbrella_name:
  "revert_patches ''mlflow''
     (install_patch ''sklearn'' ''sklearn.base.BaseEstimator'' ''fit'' 1 empty_registry)
   = install_patch ''sklearn'' ''sklearn.base.BaseEstimator'' ''fit'' 1 empty_registry
   \<and> applied_patches (revert_patches ''mlflow''
        (install_patch ''sklearn'' ''sklearn.base.BaseEstimator'' ''fit'' 1 empty_registry))
     = [Patch ''sklearn.base.BaseEstimator'' ''fit'' 1]"
  by (simp add: revert_patches_def install_patch_def wrap_patch_def store_patch_def
      gorilla_apply_def gorilla_revert_def empty_registry_def Let_def fun_upd_idem)

lemma fold_gorilla_revert:
  "applied_patches (fold gorilla_revert ps st) = filter (\<lambda>p. p \<notin> set ps) (applied_patches st)
   \<and> AUTOLOGGING_PATCHES (fold gorilla_revert ps st) = AUTOLOGGING_PATCHES st"
  by (induction ps arbitrary: st) (auto simp: gorilla_revert_def removeAll_filter_not_eq intro: filter_cong)

lemma revert_patches_recorded:
  assumes "AUTOLOGGING_PATCHES st n = Some ps"
  shows "set (applied_patches (revert_patches n st)) = set (applied_patches st) - set ps"
    and "AUTOLOGGING_PATCHES (revert_patches n st) n = None"
  using assms by (auto simp: revert_patches_def Let_def fold_gorilla_revert)

section \<open>The managed run created and ended\<close>


lemma ended_fields [simp]:
  "run_store (ended r st w) = set_status r st (run_store w)"
  "active_run_stack (ended r st w) = []"
  by (simp_all add: ended_def)


section \<open>Instances\<close>

text \<open>
  The theorems above at concrete patch implementations, originals and states, their
  hypotheses discharged by evaluation.
\<close>

lemma not_skipped_initially [simp]: "\<not> skip_instrumentation (initial_world t u) i"
  by (simp add: scenario_defs model_defs)





theorem keyboard_interrupt_not_swallowed_witness:
  "fst (guarded_call (Guarded ''sklearn'' ''fit'' interrupted_patch True scenario_A_original)
          [VInt 5] [] (initial_world False ())) = Raise KeyboardInterrupt
   \<and> map status (run_store (snd (guarded_call
          (Guarded ''sklearn'' ''fit'' interrupted_patch True scenario_A_original)
          [VInt 5] [] (initial_world False ())))) = [FAILED]
   \<and> map ev_kind (event_log (snd (guarded_call
          (Guarded ''sklearn'' ''fit'' interrupted_patch True scenario_A_original)
          [VInt 5] [] (initial_world False ())))) = [patch_function_start]
   \<and> original_calls (snd (guarded_call
          (Guarded ''sklearn'' ''fit'' interrupted_patch True scenario_A_original)
          [VInt 5] [] (initial_world False ()))) = []"
proof -
  let ?run = "installed_patch ''sklearn'' interrupted_patch True
                 (call_original ''fit'' scenario_A_original [VInt 5] []) [VInt 5] []
                 (patch_entry ''sklearn'' ''fit'' [VInt 5] [] (initial_world False ()))"
  have run: "?run = (Raise KeyboardInterrupt, fst (snd ?run), snd (snd ?run))"
    by (simp add: installed_patch_def patch_entry_def enter_scopes_def scenario_defs model_defs)
  have store: "map status (run_store (snd (snd ?run))) = [FAILED]"
    and events: "map ev_kind (event_log (snd (snd ?run))) = [patch_function_start]"
    and calls: "original_calls (snd (snd ?run)) = []"
    by (simp_all add: installed_patch_def patch_entry_def enter_scopes_def scenario_defs
        model_defs)
  show ?thesis
    using keyboard_interrupt_not_swallowed[OF not_skipped_initially run, THEN conjunct1]
      store events calls
    by simp
qed

theorem on_exception_cannot_suppress_witness:
  "PatchFunction_call
     (\<lambda>original a kw x. (Raise (PyException ''instrumentation bug''), x))
     (\<lambda>original e x. (Raise (PyException ''cleanup failed''), fst x, fst (snd x),
                         log_warning e (snd (snd x))))
     () (call_original ''fit'' scenario_A_original [VInt 5] []) [VInt 5] []
     (new_frame, initial_world False ())
   = (Raise (PyException ''instrumentation bug''), new_frame,
      log_warning (PyException ''instrumentation bug'') (initial_world False ()))"
  using on_exception_cannot_suppress
    [where patch_implementation = "\<lambda>original a kw x. (Raise (PyException ''instrumentation bug''), x)"
       and on_exception = "\<lambda>original e x. (Raise (PyException ''cleanup failed''), fst x, fst (snd x),
                         log_warning e (snd (snd x)))"
       and E = "PyException ''instrumentation bug''" and self = "()"
       and s = "(new_frame, initial_world False ())" and self' = "()"
       and s' = "(new_frame, initial_world False ())"
       and original = "call_original ''fit'' scenario_A_original [VInt 5] []"
       and args = "[VInt 5]" and kwargs = "[]"]
  by (simp add: is_Exception_or_KeyboardInterrupt_def)


theorem scenario_A_returns_original_result_witness:
  "fst (guarded_call (Guarded ''sklearn'' ''fit'' scenario_A_patch False scenario_A_original)
          [VInt 5] [] (initial_world False ())) = Return (VInt 10)
   \<and> map call_args (original_calls (snd (guarded_call
          (Guarded ''sklearn'' ''fit'' scenario_A_patch False scenario_A_original) [VInt 5] []
          (initial_world False ())))) = [[VInt 5]]"
  by (rule scenario_A_returns_original_result)

end
